theory Spec2Isabelle
  imports Main
begin

section \<open>Strings\<close>

text \<open>
  A JavaScript string is a sequence of UTF-16 code units. The model uses HOL's
  \<open>string\<close>, whose characters are the code units below 256 (ASCII and Latin-1);
  \<open>length\<close> counts code units, as \<open>String.prototype.length\<close> does.
\<close>

text \<open>\<open>String.prototype.startsWith\<close> and \<open>String.prototype.includes\<close>.\<close>

fun startsWith :: "string \<Rightarrow> string \<Rightarrow> bool" where
  "startsWith s [] = True"
| "startsWith [] (p # ps) = False"
| "startsWith (c # cs) (p # ps) = (c = p \<and> startsWith cs ps)"

fun str_includes :: "string \<Rightarrow> string \<Rightarrow> bool" where
  "str_includes [] p = (p = [])"
| "str_includes (c # cs) p = (startsWith (c # cs) p \<or> str_includes cs p)"

text \<open>
  \<open>String.prototype.toLowerCase\<close> on code units below 256: the ASCII capitals and
  the Latin-1 capitals U+00C0 to U+00DE (without the multiplication sign U+00D7)
  move up by 32, every other code unit stays.
\<close>

definition toLowerChar :: "char \<Rightarrow> char" where
  "toLowerChar c =
     (let n = (of_char c :: nat)
      in if (65 \<le> n \<and> n \<le> 90) \<or> (192 \<le> n \<and> n \<le> 222 \<and> n \<noteq> 215)
         then char_of (n + 32) else c)"

definition toLowerCase :: "string \<Rightarrow> string" where
  "toLowerCase s = map toLowerChar s"

text \<open>
  White space as \<open>trim\<close> and the regular expression class \<open>\s\<close> see it, on code
  units below 256: TAB, LF, VT, FF, CR, SPACE and NBSP. Line terminators (which
  the regular expression \<open>.\<close> refuses) are LF and CR.
\<close>

definition isSpace :: "char \<Rightarrow> bool" where
  "isSpace c = ((of_char c :: nat) \<in> {9, 10, 11, 12, 13, 32, 160})"

definition isLineTerminator :: "char \<Rightarrow> bool" where
  "isLineTerminator c = ((of_char c :: nat) \<in> {10, 13})"

definition isDigit :: "char \<Rightarrow> bool" where
  "isDigit c = (48 \<le> (of_char c :: nat) \<and> (of_char c :: nat) \<le> 57)"

definition trim :: "string \<Rightarrow> string" where
  "trim s = rev (dropWhile isSpace (rev (dropWhile isSpace s)))"

text \<open>
  A number inside a template literal is rendered in decimal: the digits of the
  quotient by ten, if there are any, and then the last digit. \<open>showInt\<close> puts the
  sign in front of a negative integer.
\<close>

definition digitChar :: "nat \<Rightarrow> char" where
  "digitChar k = ''0123456789'' ! (k mod 10)"

function showNat :: "nat \<Rightarrow> string" where
  "showNat n = (if n div 10 = 0 then [digitChar n] else showNat (n div 10) @ [digitChar n])"
  by pat_completeness auto
termination
  by (relation "measure id") auto

definition showInt :: "int \<Rightarrow> string" where
  "showInt i = (if 0 \<le> i then showNat (nat i) else CHR ''-'' # showNat (nat (- i)))"

text \<open>
  \<open>capitalizeFirst\<close>: \<open>str.charAt(0).toUpperCase() + str.slice(1)\<close>. The program
  applies it to the words of its verb vocabulary only, which are ASCII. Of the
  code units below 256, \<open>toUpperChar\<close> leaves out the three whose capital is
  not a single code unit below 256 (U+00B5, U+00DF, U+00FF).
\<close>

definition toUpperChar :: "char \<Rightarrow> char" where
  "toUpperChar c =
     (let n = (of_char c :: nat)
      in if (97 \<le> n \<and> n \<le> 122) \<or> (224 \<le> n \<and> n \<le> 254 \<and> n \<noteq> 247)
         then char_of (n - 32) else c)"

fun capitalizeFirst :: "string \<Rightarrow> string" where
  "capitalizeFirst [] = []"
| "capitalizeFirst (c # cs) = toUpperChar c # cs"

section \<open>Data model (types/workflow)\<close>

text \<open>
  A \<open>config\<close> is a \<open>Record<string, any>\<close>: an association list in the order the
  keys are written, over the values that occur in this program: strings,
  integers, booleans and arrays of strings.
\<close>

datatype json = JStr string | JNum int | JBool bool | JStrs "string list"

type_synonym config = "(string \<times> json) list"

datatype step_type = Action | Condition | Delay | Notification

record WorkflowStep =
  step_id :: string
  step_type :: step_type
  step_title :: string
  step_description :: string
  step_reasoning :: string
  step_config :: config
  step_dependencies :: "string list option"

datatype trigger_type = Event | Schedule | Manual

record TriggerConfig =
  event :: "string option"
  schedule :: "string option"
  cron :: "string option"

record WorkflowTrigger =
  trigger_type :: trigger_type
  trigger_description :: string
  trigger_config :: "TriggerConfig option"

datatype domain = Reminders | Automation | AppSetup | General

record Metadata =
  createdAt :: string
  userInput :: string
  agentReasoning :: string

record Workflow =
  wf_id :: string
  wf_name :: string
  wf_description :: string
  wf_domain :: domain
  wf_trigger :: WorkflowTrigger
  wf_steps :: "WorkflowStep list"
  wf_metadata :: Metadata

record GeneratorResult =
  workflow :: Workflow
  clarificationNeeded :: "bool option"
  clarificationQuestion :: "string option"

section \<open>The generator (lib/workflowGenerator)\<close>

text \<open>
  The generator reads the clock and the random number generator only to build
  the workflow id and the creation time stamp. What they return is an input of
  the model: \<open>dateNow\<close> is \<open>Date.now()\<close>, \<open>randomBase36\<close> is
  \<open>Math.random().toString(36)\<close> and \<open>isoNow\<close> is \<open>new Date().toISOString()\<close>.
\<close>

record GenEnv =
  dateNow :: nat
  randomBase36 :: string
  isoNow :: string

definition generateId :: "GenEnv \<Rightarrow> string" where
  "generateId env =
     ''wf-'' @ showNat (dateNow env) @ ''-'' @ take 9 (drop 2 (randomBase36 env))"

definition createEmptyWorkflow :: "GenEnv \<Rightarrow> string \<Rightarrow> Workflow" where
  "createEmptyWorkflow env userInput' =
     \<lparr> wf_id = generateId env,
       wf_name = ''New Workflow'',
       wf_description = '''',
       wf_domain = General,
       wf_trigger = \<lparr> trigger_type = Manual, trigger_description = ''Run manually'',
                      trigger_config = None \<rparr>,
       wf_steps = [],
       wf_metadata = \<lparr> createdAt = isoNow env, userInput = userInput',
                       agentReasoning = ''Waiting for more details from user'' \<rparr> \<rparr>"

subsection \<open>The two regular expressions of the reminder template\<close>

text \<open>
  \<open>/(\d+)\s*(am|pm|hour|minute|day|week)/\<close> at one start position: a maximal run
  of digits (at least one), a maximal run of white space, then the first
  alternative that is a prefix of the rest. Giving back digits or white space
  cannot help, since every alternative starts with a letter. The result is the
  matched text, \<open>timeMatch[0]\<close>.
\<close>

definition timeUnits :: "string list" where
  "timeUnits = [''am'', ''pm'', ''hour'', ''minute'', ''day'', ''week'']"

definition matchTimeAt :: "string \<Rightarrow> string option" where
  "matchTimeAt s =
     (let ds = takeWhile isDigit s; r1 = dropWhile isDigit s;
          ws = takeWhile isSpace r1; r2 = dropWhile isSpace r1
      in if ds = [] then None
         else (case find (startsWith r2) timeUnits of
                 None \<Rightarrow> None
               | Some u \<Rightarrow> Some (ds @ ws @ u)))"

text \<open>\<open>input.match(...)\<close> takes the leftmost start position that matches.\<close>

fun matchTime :: "string \<Rightarrow> string option" where
  "matchTime [] = None"
| "matchTime (c # cs) =
     (case matchTimeAt (c # cs) of Some m \<Rightarrow> Some m | None \<Rightarrow> matchTime cs)"

text \<open>
  \<open>/to (.+?)(\s+at|\s+every|$)/i\<close>. The flag \<open>i\<close> compares letters without case.
  \<open>tailMatch r\<close> says that the second group matches at the front of \<open>r\<close>: white
  space (at least one) followed by \<open>at\<close> or \<open>every\<close>, or the end of the input.
\<close>

definition startsWithCI :: "string \<Rightarrow> string \<Rightarrow> bool" where
  "startsWithCI s p = startsWith (map toLowerChar s) p"

definition tailMatch :: "string \<Rightarrow> bool" where
  "tailMatch r =
     (let ws = takeWhile isSpace r; r' = dropWhile isSpace r
      in (ws \<noteq> [] \<and> (startsWithCI r' ''at'' \<or> startsWithCI r' ''every'')) \<or> r = [])"

text \<open>
  The lazy group \<open>(.+?)\<close>: \<open>acc\<close> is what the group holds so far (at least one
  character), and it grows by one character that is not a line terminator until
  the second group matches.
\<close>

fun lazyGroup :: "string \<Rightarrow> string \<Rightarrow> string option" where
  "lazyGroup acc [] = Some acc"
| "lazyGroup acc (c # cs) =
     (if tailMatch (c # cs) then Some acc
      else if isLineTerminator c then None
      else lazyGroup (acc @ [c]) cs)"

definition matchToAt :: "string \<Rightarrow> string option" where
  "matchToAt s =
     (if startsWithCI s ''to '' then
        (case drop 3 s of
           [] \<Rightarrow> None
         | c # cs \<Rightarrow> if isLineTerminator c then None else lazyGroup [c] cs)
      else None)"

fun matchTo :: "string \<Rightarrow> string option" where
  "matchTo [] = None"
| "matchTo (c # cs) =
     (case matchToAt (c # cs) of Some g \<Rightarrow> Some g | None \<Rightarrow> matchTo cs)"

definition extractReminderMessage :: "string \<Rightarrow> string" where
  "extractReminderMessage input =
     (case matchTo input of Some g \<Rightarrow> trim g | None \<Rightarrow> ''Complete your task'')"

subsection \<open>Keyword helpers\<close>

definition detectFramework :: "string \<Rightarrow> string" where
  "detectFramework input =
     (if str_includes input ''react'' then ''React''
      else if str_includes input ''vue'' then ''Vue''
      else if str_includes input ''angular'' then ''Angular''
      else if str_includes input ''next'' then ''Next.js''
      else if str_includes input ''svelte'' then ''Svelte''
      else ''React'')"

definition detectPackages :: "string \<Rightarrow> string list" where
  "detectPackages input =
     (let packages =
            (if str_includes input ''typescript'' \<or> str_includes input ''ts''
             then [''typescript''] else [])
          @ (if str_includes input ''eslint'' then [''eslint''] else [])
          @ (if str_includes input ''prettier'' then [''prettier''] else [])
          @ (if str_includes input ''tailwind'' then [''tailwindcss''] else [])
          @ (if str_includes input ''jest'' then [''jest''] else [])
          @ (if str_includes input ''vitest'' then [''vitest''] else [])
      in if length packages > 0 then packages else [''standard-dependencies''])"

definition detectChannel :: "string \<Rightarrow> string" where
  "detectChannel input =
     (if str_includes input ''email'' then ''email''
      else if str_includes input ''sms'' \<or> str_includes input ''text'' then ''sms''
      else if str_includes input ''slack'' then ''slack''
      else if str_includes input ''push'' then ''push''
      else ''email'')"

definition actionWords :: "string list" where
  "actionWords = [''create'', ''send'', ''check'', ''update'', ''delete'', ''notify'',
                  ''process'', ''validate'', ''transform'', ''save'', ''load'', ''execute'']"

definition extractActions :: "string \<Rightarrow> string list" where
  "extractActions input =
     (let found = filter (str_includes input) actionWords
      in if length found > 0 then found else [''process''])"

subsection \<open>The four templates\<close>

definition generateReminderWorkflow :: "GenEnv \<Rightarrow> string \<Rightarrow> string \<Rightarrow> Workflow" where
  "generateReminderWorkflow env userInput' input =
     (let timeMatch = matchTime input;
          frequency = (if str_includes input ''every'' then ''recurring'' else ''once'');
          steps =
            [ \<lparr> step_id = ''step-1'',
                step_type = Condition,
                step_title = ''Check Schedule Time'',
                step_description = ''Monitor for the scheduled time: ''
                   @ (case timeMatch of Some m \<Rightarrow> m | None \<Rightarrow> ''specified time''),
                step_reasoning = ''This step continuously checks if the current time matches the desired reminder schedule'',
                step_config =
                  [ (''frequency'', JStr frequency),
                    (''time'', JStr (case timeMatch of Some m \<Rightarrow> m | None \<Rightarrow> ''9:00 AM'')),
                    (''timezone'', JStr ''local'') ],
                step_dependencies = None \<rparr>,
              \<lparr> step_id = ''step-2'',
                step_type = Notification,
                step_title = ''Send Reminder'',
                step_description = ''Deliver the notification to the user'',
                step_reasoning = ''When the scheduled time arrives, this step sends the actual reminder notification'',
                step_config =
                  [ (''message'', JStr (extractReminderMessage input)),
                    (''channels'', JStrs [''push'', ''email'']) ],
                step_dependencies = Some [''step-1''] \<rparr>,
              \<lparr> step_id = ''step-3'',
                step_type = Action,
                step_title = ''Log Event'',
                step_description = ''Record that the reminder was sent'',
                step_reasoning = ''Keeping a log helps track reminder history and debug issues'',
                step_config =
                  [ (''action'', JStr ''log''),
                    (''details'', JStr ''Reminder sent successfully'') ],
                step_dependencies = Some [''step-2''] \<rparr> ];
          scheduleTime = (case timeMatch of Some m \<Rightarrow> m | None \<Rightarrow> ''9:00 AM'')
      in \<lparr> wf_id = generateId env,
           wf_name = ''Reminder Workflow'',
           wf_description =
             (if frequency = ''recurring'' then ''Recurring'' else ''One-time'')
             @ '' reminder notification'',
           wf_domain = Reminders,
           wf_trigger =
             \<lparr> trigger_type = Schedule,
               trigger_description =
                 (if frequency = ''recurring'' then ''Every day'' else ''Once'')
                 @ '' at '' @ scheduleTime,
               trigger_config =
                 Some \<lparr> event = None, schedule = Some scheduleTime,
                        cron = (if frequency = ''recurring'' then Some (''0 '' @ scheduleTime)
                                else None) \<rparr> \<rparr>,
           wf_steps = steps,
           wf_metadata =
             \<lparr> createdAt = isoNow env, userInput = userInput',
               agentReasoning = ''I detected this is a reminder workflow with '' @ frequency
                 @ '' execution. The workflow monitors for the scheduled time, sends a notification, and logs the event for tracking.'' \<rparr> \<rparr>)"

definition generateAppSetupWorkflow :: "GenEnv \<Rightarrow> string \<Rightarrow> string \<Rightarrow> Workflow" where
  "generateAppSetupWorkflow env userInput' input =
     (let framework = detectFramework input;
          steps =
            [ \<lparr> step_id = ''step-1'',
                step_type = Action,
                step_title = ''Initialize Project'',
                step_description = ''Create new '' @ framework @ '' project with configuration'',
                step_reasoning = ''Starting with project initialization ensures we have the correct directory structure and dependencies'',
                step_config =
                  [ (''command'', JStr (''create-'' @ framework @ ''-app'')),
                    (''framework'', JStr framework) ],
                step_dependencies = None \<rparr>,
              \<lparr> step_id = ''step-2'',
                step_type = Action,
                step_title = ''Install Dependencies'',
                step_description = ''Install required packages and tools'',
                step_reasoning = ''Dependencies must be installed before we can configure or run the project'',
                step_config = [ (''packages'', JStrs (detectPackages input)) ],
                step_dependencies = Some [''step-1''] \<rparr> ]
            @ (if str_includes input ''test'' \<or> str_includes input ''jest''
                  \<or> str_includes input ''vitest''
               then [ \<lparr> step_id = ''step-3'',
                        step_type = Action,
                        step_title = ''Configure Testing'',
                        step_description = ''Set up testing framework and sample tests'',
                        step_reasoning = ''Testing infrastructure is essential for maintainable code'',
                        step_config =
                          [ (''testFramework'',
                             JStr (if str_includes input ''vitest'' then ''vitest'' else ''jest'')) ],
                        step_dependencies = Some [''step-2''] \<rparr> ]
               else [])
            @ [ \<lparr> step_id = ''step-4'',
                  step_type = Action,
                  step_title = ''Start Development Server'',
                  step_description = ''Launch the application in development mode'',
                  step_reasoning = ''Starting the dev server allows immediate verification that setup was successful'',
                  step_config = [ (''command'', JStr ''npm run dev''), (''port'', JNum 3000) ],
                  step_dependencies = Some [''step-2''] \<rparr> ]
      in \<lparr> wf_id = generateId env,
           wf_name = framework @ '' Project Setup'',
           wf_description = ''Initialize and configure a new '' @ framework @ '' project'',
           wf_domain = AppSetup,
           wf_trigger = \<lparr> trigger_type = Manual, trigger_description = ''Run now'',
                          trigger_config = None \<rparr>,
           wf_steps = steps,
           wf_metadata =
             \<lparr> createdAt = isoNow env, userInput = userInput',
               agentReasoning = ''This is a project setup workflow for '' @ framework
                 @ ''. I've broken it down into logical steps: initialize, install dependencies, configure testing (if requested), and start the dev server. Each step depends on the previous one completing successfully.'' \<rparr> \<rparr>)"

definition generateNotificationWorkflow :: "GenEnv \<Rightarrow> string \<Rightarrow> string \<Rightarrow> Workflow" where
  "generateNotificationWorkflow env userInput' input =
     (let steps =
            [ \<lparr> step_id = ''step-1'',
                step_type = Condition,
                step_title = ''Validate Recipient Info'',
                step_description = ''Check that required recipient information is available'',
                step_reasoning = ''We must validate inputs before attempting to send to prevent errors'',
                step_config = [ (''required'', JStrs [''recipient'', ''message'']) ],
                step_dependencies = None \<rparr>,
              \<lparr> step_id = ''step-2'',
                step_type = Action,
                step_title = ''Prepare Message'',
                step_description = ''Format and prepare the notification content'',
                step_reasoning = ''Message preparation ensures consistent formatting and includes all necessary information'',
                step_config = [ (''template'', JStr ''standard''), (''includeTimestamp'', JBool True) ],
                step_dependencies = Some [''step-1''] \<rparr>,
              \<lparr> step_id = ''step-3'',
                step_type = Notification,
                step_title = ''Send Notification'',
                step_description = ''Send via '' @ detectChannel input,
                step_reasoning = ''This is the main action that delivers the notification to the recipient'',
                step_config =
                  [ (''channel'', JStr (detectChannel input)),
                    (''priority'',
                     JStr (if str_includes input ''urgent'' \<or> str_includes input ''important''
                           then ''high'' else ''normal'')) ],
                step_dependencies = Some [''step-2''] \<rparr>,
              \<lparr> step_id = ''step-4'',
                step_type = Action,
                step_title = ''Confirm Delivery'',
                step_description = ''Verify the notification was delivered successfully'',
                step_reasoning = ''Delivery confirmation helps track success rate and catch any issues'',
                step_config = [ (''retryOnFailure'', JBool True), (''maxRetries'', JNum 3) ],
                step_dependencies = Some [''step-3''] \<rparr> ];
          eventType =
            (if str_includes input ''when'' \<or> str_includes input ''signup''
                \<or> str_includes input ''user'' then Event else Manual);
          eventDesc = (if eventType = Event then ''Event: New user signup'' else ''Run now'')
      in \<lparr> wf_id = generateId env,
           wf_name = ''Notification Workflow'',
           wf_description = ''Send and track notification delivery'',
           wf_domain = Automation,
           wf_trigger =
             \<lparr> trigger_type = eventType, trigger_description = eventDesc,
               trigger_config =
                 (if eventType = Event
                  then Some \<lparr> event = Some ''user.signup'', schedule = None, cron = None \<rparr>
                  else None) \<rparr>,
           wf_steps = steps,
           wf_metadata =
             \<lparr> createdAt = isoNow env, userInput = userInput',
               agentReasoning = ''This workflow handles notification delivery with proper validation, formatting, sending, and delivery confirmation. Each step ensures reliability and provides feedback.'' \<rparr> \<rparr>)"

text \<open>
  One step of the general template, built by the callback of
  \<open>actions.forEach((action, index) => steps.push(...))\<close>.
\<close>

definition actionStep :: "nat \<Rightarrow> string \<Rightarrow> WorkflowStep" where
  "actionStep index action =
     \<lparr> step_id = ''step-'' @ showNat (index + 1),
       step_type = Action,
       step_title = capitalizeFirst action,
       step_description = ''Execute: '' @ action,
       step_reasoning = ''This step performs the action \"'' @ action
          @ ''\" as specified in your workflow description'',
       step_config = [ (''action'', JStr action) ],
       step_dependencies = (if index > 0 then Some [''step-'' @ showNat index] else None) \<rparr>"

definition generateGeneralWorkflow :: "GenEnv \<Rightarrow> string \<Rightarrow> string \<Rightarrow> Workflow" where
  "generateGeneralWorkflow env userInput' input =
     (let actions = extractActions input;
          steps0 = foldl (\<lambda>steps (index, action). steps @ [actionStep index action])
                     [] (enumerate 0 actions);
          steps =
            (if length steps0 = 0
             then steps0 @
                  [ \<lparr> step_id = ''step-1'',
                      step_type = Action,
                      step_title = ''Execute Workflow'',
                      step_description = userInput',
                      step_reasoning = ''This is a general-purpose workflow step based on your description'',
                      step_config = [],
                      step_dependencies = None \<rparr> ]
             else steps0)
      in \<lparr> wf_id = generateId env,
           wf_name = ''Custom Workflow'',
           wf_description = userInput',
           wf_domain = General,
           wf_trigger = \<lparr> trigger_type = Manual, trigger_description = ''Run now'',
                          trigger_config = None \<rparr>,
           wf_steps = steps,
           wf_metadata =
             \<lparr> createdAt = isoNow env, userInput = userInput',
               agentReasoning = ''I've created a '' @ showNat (length steps)
                 @ ''-step workflow based on your description. Each step executes sequentially. You can modify or add steps as needed.'' \<rparr> \<rparr>)"

subsection \<open>generateWorkflow\<close>

definition clarifyingQuestion :: string where
  "clarifyingQuestion = ''Could you provide more details about what you want to accomplish? For example: \"Send me a reminder every morning at 9am\" or \"Set up a new React project with testing\"''"

definition generateWorkflow :: "GenEnv \<Rightarrow> string \<Rightarrow> GeneratorResult" where
  "generateWorkflow env userInput' =
     (let input = trim (toLowerCase userInput')
      in if length input < 10 \<or> \<not> str_includes input '' '' then
           \<lparr> workflow = createEmptyWorkflow env userInput',
             clarificationNeeded = Some True,
             clarificationQuestion = Some clarifyingQuestion \<rparr>
         else if str_includes input ''remind'' \<or> str_includes input ''notification''
                 \<or> str_includes input ''alert'' then
           \<lparr> workflow = generateReminderWorkflow env userInput' input,
             clarificationNeeded = None, clarificationQuestion = None \<rparr>
         else if str_includes input ''setup'' \<or> str_includes input ''create project''
                 \<or> str_includes input ''initialize'' then
           \<lparr> workflow = generateAppSetupWorkflow env userInput' input,
             clarificationNeeded = None, clarificationQuestion = None \<rparr>
         else if str_includes input ''email'' \<or> str_includes input ''send''
                 \<or> str_includes input ''notify'' then
           \<lparr> workflow = generateNotificationWorkflow env userInput' input,
             clarificationNeeded = None, clarificationQuestion = None \<rparr>
         else
           \<lparr> workflow = generateGeneralWorkflow env userInput' input,
             clarificationNeeded = None, clarificationQuestion = None \<rparr>)"

section \<open>Execution records (types/workflow)\<close>

datatype log_status = Pending | Running | Completed | Failed

record ExecutionLog =
  stepId :: string
  stepTitle :: string
  log_status :: log_status
  log_startTime :: "string option"
  log_endTime :: "string option"
  log_output :: "string option"
  log_error :: "string option"

datatype exec_status = ExecIdle | ExecRunning | ExecCompleted | ExecFailed

text \<open>
  The \<open>logs\<close> field of a \<open>WorkflowExecution\<close> object is a reference to an array:
  the address of that array in the store. Two objects with the same address
  share one array.
\<close>

type_synonym addr = nat

record WorkflowExecution =
  workflowId :: string
  executionId :: string
  status :: exec_status
  logs :: addr
  startTime :: "string option"
  endTime :: "string option"

section \<open>The executor (lib/workflowExecutor)\<close>

subsection \<open>simulateStepExecution\<close>

text \<open>
  How JavaScript reads a config value in a condition (\<open>if (config.command)\<close>)
  and in a template literal. A key that is absent reads as \<open>undefined\<close>.
\<close>

fun truthy :: "json option \<Rightarrow> bool" where
  "truthy None = False"
| "truthy (Some (JStr s)) = (s \<noteq> [])"
| "truthy (Some (JNum n)) = (n \<noteq> 0)"
| "truthy (Some (JBool b)) = b"
| "truthy (Some (JStrs xs)) = True"

fun joinComma :: "string list \<Rightarrow> string" where
  "joinComma [] = []"
| "joinComma [x] = x"
| "joinComma (x # y # ys) = x @ '','' @ joinComma (y # ys)"

fun render :: "json option \<Rightarrow> string" where
  "render None = ''undefined''"
| "render (Some (JStr s)) = s"
| "render (Some (JNum n)) = showInt n"
| "render (Some (JBool b)) = (if b then ''true'' else ''false'')"
| "render (Some (JStrs xs)) = joinComma xs"

text \<open>
  The check mark U+2713 that starts every output is no code unit below 256; it
  stands here as the three bytes of its UTF-8 form. No function inspects it.
\<close>

definition checkMark :: string where
  "checkMark = [CHR 0xE2, CHR 0x9C, CHR 0x93]"

definition newline :: string where
  "newline = [CHR 0x0A]"

record SimResult =
  success :: bool
  sim_output :: "string option"
  sim_error :: "string option"

text \<open>
  \<open>simulateStepExecution\<close> draws \<open>Math.random() > 0.05\<close> first; the model takes the
  value of that comparison as its first argument. The \<open>default\<close> branch of the
  \<open>switch\<close> is out of reach for the four step types.
\<close>

definition simulateStepExecution :: "bool \<Rightarrow> step_type \<Rightarrow> string \<Rightarrow> config \<Rightarrow> SimResult" where
  "simulateStepExecution drawn type title cfg =
     (if \<not> drawn then
        \<lparr> success = False, sim_output = None, sim_error = Some ''Simulated execution error'' \<rparr>
      else
        let out1 =
              (case type of
                 Action \<Rightarrow>
                   checkMark @ '' Action executed successfully: '' @ title
                   @ (if truthy (map_of cfg ''command'')
                      then newline @ ''Command: '' @ render (map_of cfg ''command'') else [])
               | Condition \<Rightarrow>
                   checkMark @ '' Condition evaluated: '' @ title @ newline @ ''Result: true''
               | Notification \<Rightarrow>
                   checkMark @ '' Notification sent: '' @ title
                   @ (if truthy (map_of cfg ''channel'')
                      then newline @ ''Channel: '' @ render (map_of cfg ''channel'') else [])
                   @ (if truthy (map_of cfg ''message'')
                      then newline @ ''Message: '' @ render (map_of cfg ''message'') else [])
               | Delay \<Rightarrow>
                   checkMark @ '' Delay completed: '' @ title);
            out2 = out1
              @ (if truthy (map_of cfg ''frequency'')
                 then newline @ ''Frequency: '' @ render (map_of cfg ''frequency'') else [])
              @ (if truthy (map_of cfg ''time'')
                 then newline @ ''Scheduled time: '' @ render (map_of cfg ''time'') else [])
        in \<lparr> success = True, sim_output = Some out2, sim_error = None \<rparr>)"

subsection \<open>The state of a run\<close>

text \<open>
  What a run reads from outside: \<open>dateNowMs\<close> is \<open>Date.now()\<close> at the start,
  \<open>now k\<close> is the \<open>k\<close>-th time stamp \<open>new Date().toISOString()\<close> the run reads, and
  \<open>outcome k\<close> says whether the \<open>k\<close>-th call of \<open>simulateStepExecution\<close> draws a
  success. The length of a delay shows only in the time stamps read after it.
\<close>

record World =
  dateNowMs :: nat
  now :: "nat \<Rightarrow> string"
  outcome :: "nat \<Rightarrow> bool"

text \<open>
  \<open>heap\<close> is the store of log arrays and \<open>nextAddr\<close> the next free address;
  \<open>execution\<close> is the record the run mutates and returns. \<open>emitted\<close> lists the
  objects handed to \<open>onProgress\<close>, oldest first. \<open>simulated\<close> lists the passes
  through the delay and \<open>simulateStepExecution\<close>: the step and the success drawn.
  \<open>clockReads\<close> counts the time stamps read so far.
\<close>

record ExecState =
  heap :: "addr \<Rightarrow> ExecutionLog list"
  nextAddr :: addr
  execution :: WorkflowExecution
  emitted :: "WorkflowExecution list"
  simulated :: "(WorkflowStep \<times> bool) list"
  clockReads :: nat

definition liveLogs :: "ExecState \<Rightarrow> ExecutionLog list" where
  "liveLogs s = heap s (logs (execution s))"

text \<open>What the holder of an emitted object \<open>e\<close> reads through it in state \<open>s\<close>.\<close>

definition seenLogs :: "ExecState \<Rightarrow> WorkflowExecution \<Rightarrow> ExecutionLog list" where
  "seenLogs s e = heap s (logs e)"

text \<open>
  \<open>onProgress({ ...execution })\<close>: a new object with the same fields, so with the
  same \<open>logs\<close> array. Nothing happens without a callback (\<open>cb = False\<close>).
\<close>

definition notifyShallow :: "bool \<Rightarrow> ExecState \<Rightarrow> ExecState" where
  "notifyShallow cb s = (if cb then s\<lparr> emitted := emitted s @ [execution s] \<rparr> else s)"

text \<open>
  \<open>onProgress(JSON.parse(JSON.stringify(execution)))\<close>: a new object whose \<open>logs\<close>
  is a new array holding copies of the entries.
\<close>

definition notifyDeep :: "bool \<Rightarrow> ExecState \<Rightarrow> ExecState" where
  "notifyDeep cb s =
     (if cb then
        s\<lparr> heap := (heap s)(nextAddr s := liveLogs s),
           nextAddr := Suc (nextAddr s),
           emitted := emitted s @ [(execution s)\<lparr> logs := nextAddr s \<rparr>] \<rparr>
      else s)"

text \<open>Assignments to fields of \<open>execution.logs[i]\<close>, in place.\<close>

definition modifyLog :: "nat \<Rightarrow> (ExecutionLog \<Rightarrow> ExecutionLog) \<Rightarrow> ExecState \<Rightarrow> ExecState" where
  "modifyLog i f s =
     s\<lparr> heap := (heap s)(logs (execution s) := (liveLogs s)[i := f (liveLogs s ! i)]) \<rparr>"

definition readClock :: "World \<Rightarrow> ExecState \<Rightarrow> string \<times> ExecState" where
  "readClock world s = (now world (clockReads s), s\<lparr> clockReads := Suc (clockReads s) \<rparr>)"

subsection \<open>executeWorkflow\<close>

text \<open>\<open>Array.prototype.findIndex\<close>, with \<open>None\<close> for the result \<open>-1\<close>.\<close>

fun findIndex :: "('a \<Rightarrow> bool) \<Rightarrow> 'a list \<Rightarrow> nat option" where
  "findIndex P [] = None"
| "findIndex P (x # xs) =
     (if P x then Some 0 else map_option Suc (findIndex P xs))"

text \<open>
  \<open>step.dependencies.every(depId => logs.find(log => log.stepId === depId)?.status === 'completed')\<close>
\<close>

definition depsComplete :: "ExecutionLog list \<Rightarrow> string list \<Rightarrow> bool" where
  "depsComplete ls deps =
     list_all (\<lambda>depId. case find (\<lambda>log. stepId log = depId) ls of
                          None \<Rightarrow> False
                        | Some depLog \<Rightarrow> log_status depLog = Completed) deps"

text \<open>Lines 12 to 27: the record and one pending log per step.\<close>

definition initLogs :: "WorkflowStep list \<Rightarrow> ExecutionLog list" where
  "initLogs steps =
     foldl (\<lambda>ls step. ls @ [\<lparr> stepId = step_id step, stepTitle = step_title step,
                               log_status = Pending, log_startTime = None,
                               log_endTime = None, log_output = None, log_error = None \<rparr>])
       [] steps"

definition initState :: "World \<Rightarrow> Workflow \<Rightarrow> ExecState" where
  "initState world w =
     \<lparr> heap = (\<lambda>a. [])(0 := initLogs (wf_steps w)),
       nextAddr = 1,
       execution = \<lparr> workflowId = wf_id w,
                     executionId = ''exec-'' @ showNat (dateNowMs world),
                     status = ExecRunning, logs = 0,
                     startTime = Some (now world 0), endTime = None \<rparr>,
       emitted = [], simulated = [], clockReads = 1 \<rparr>"

text \<open>Lines 42 to 46: the dependencies are not met.\<close>

definition failDependencies :: "nat \<Rightarrow> ExecState \<Rightarrow> ExecState" where
  "failDependencies logIndex s =
     modifyLog logIndex
       (\<lambda>l. l\<lparr> log_status := Failed, log_error := Some ''Dependencies not met'' \<rparr>) s"

text \<open>Lines 50 to 54: the step starts, and the callback sees a deep copy.\<close>

definition startStep :: "World \<Rightarrow> bool \<Rightarrow> nat \<Rightarrow> ExecState \<Rightarrow> ExecState" where
  "startStep world cb logIndex s =
     (let (t, s1) = readClock world s
      in notifyDeep cb
           (modifyLog logIndex
              (\<lambda>l. l\<lparr> log_status := Running, log_startTime := Some t \<rparr>) s1))"

text \<open>
  Lines 57 to 68: the delay, the simulated result written into the log, and the
  second deep copy for the callback.
\<close>

definition finishStep :: "World \<Rightarrow> bool \<Rightarrow> WorkflowStep \<Rightarrow> nat \<Rightarrow> ExecState \<Rightarrow> SimResult \<times> ExecState" where
  "finishStep world cb step logIndex s =
     (let drawn = outcome world (length (simulated s));
          result = simulateStepExecution drawn (step_type step) (step_title step)
                     (step_config step);
          s1 = s\<lparr> simulated := simulated s @ [(step, drawn)] \<rparr>;
          (t, s2) = readClock world s1
      in (result,
          notifyDeep cb
            (modifyLog logIndex
               (\<lambda>l. l\<lparr> log_status := (if success result then Completed else Failed),
                        log_endTime := Some t,
                        log_output := sim_output result,
                        log_error := sim_error result \<rparr>) s2)))"

definition failExecution :: "ExecState \<Rightarrow> ExecState" where
  "failExecution s = s\<lparr> execution := (execution s)\<lparr> status := ExecFailed \<rparr> \<rparr>"

text \<open>
  One pass through the body of the loop. It returns how the loop goes on and
  the states the pass goes through, in order. \<open>execution.logs[logIndex]\<close> with
  \<open>logIndex = -1\<close> is \<open>undefined\<close>, and the assignment to its field throws.
\<close>

datatype error = TypeError

datatype flow = Next | Break

definition runStep :: "World \<Rightarrow> bool \<Rightarrow> WorkflowStep \<Rightarrow> ExecState \<Rightarrow> error + flow \<times> ExecState list" where
  "runStep world cb step s =
     (case findIndex (\<lambda>log. stepId log = step_id step) (liveLogs s) of
        None \<Rightarrow> Inl TypeError
      | Some logIndex \<Rightarrow>
          if (case step_dependencies step of
                None \<Rightarrow> False
              | Some deps \<Rightarrow> \<not> depsComplete (liveLogs s) deps)
          then Inr (Next, [failDependencies logIndex s])
          else
            let s1 = startStep world cb logIndex s;
                (result, s2) = finishStep world cb step logIndex s1
            in if \<not> success result \<and> step_type step \<noteq> Condition
               then Inr (Break, [s1, s2, failExecution s2])
               else Inr (Next, [s1, s2]))"

text \<open>\<open>for (const step of workflow.steps)\<close>: the states of all passes.\<close>

fun runSteps :: "World \<Rightarrow> bool \<Rightarrow> WorkflowStep list \<Rightarrow> ExecState \<Rightarrow> error + ExecState list" where
  "runSteps world cb [] s = Inr []"
| "runSteps world cb (step # rest) s =
     (case runStep world cb step s of
        Inl e \<Rightarrow> Inl e
      | Inr (Break, sts) \<Rightarrow> Inr sts
      | Inr (Next, sts) \<Rightarrow>
          (case runSteps world cb rest (last (s # sts)) of
             Inl e \<Rightarrow> Inl e
           | Inr sts' \<Rightarrow> Inr (sts @ sts')))"

text \<open>Lines 77 to 83: the overall status, the end time, the last notification.\<close>

definition completeExecution :: "World \<Rightarrow> bool \<Rightarrow> ExecState \<Rightarrow> ExecState" where
  "completeExecution world cb s =
     (let s1 = (if status (execution s) = ExecRunning
                then s\<lparr> execution := (execution s)\<lparr> status := ExecCompleted \<rparr> \<rparr> else s);
          (t, s2) = readClock world s1
      in notifyShallow cb (s2\<lparr> execution := (execution s2)\<lparr> endTime := Some t \<rparr> \<rparr>))"

text \<open>
  The whole run as the list of its states: after the initialisation and the
  first notification, through the loop, to the state at the return.
\<close>

definition executeTrace :: "World \<Rightarrow> bool \<Rightarrow> Workflow \<Rightarrow> error + ExecState list" where
  "executeTrace world cb w =
     (let s0 = notifyShallow cb (initState world w)
      in case runSteps world cb (wf_steps w) s0 of
           Inl e \<Rightarrow> Inl e
         | Inr sts \<Rightarrow> Inr (s0 # sts @ [completeExecution world cb (last (s0 # sts))]))"

text \<open>
  \<open>executeWorkflow\<close> returns the state at the return: its \<open>execution\<close> is the
  record returned, and \<open>liveLogs\<close> reads that record's log array.
\<close>

definition executeWorkflow :: "World \<Rightarrow> bool \<Rightarrow> Workflow \<Rightarrow> error + ExecState" where
  "executeWorkflow world cb w =
     (case executeTrace world cb w of Inl e \<Rightarrow> Inl e | Inr tr \<Rightarrow> Inr (last tr))"

section \<open>Definitions used to state the properties\<close>

text \<open>
  A run has a critical failure once \<open>simulateStepExecution\<close> has returned a
  failure for a step that is not a condition.
\<close>

definition criticalFailure :: "ExecState \<Rightarrow> bool" where
  "criticalFailure s = list_ex (\<lambda>(st, ok). \<not> ok \<and> step_type st \<noteq> Condition) (simulated s)"

text \<open>
  Concrete inputs: an environment for the generator, a notification workflow
  made by the generator, and two runs of it, one whose first simulated step
  fails and one whose second simulated step fails.
\<close>

definition demoEnv :: GenEnv where
  "demoEnv = \<lparr> dateNow = 1700, randomBase36 = ''0.4fzyo82mvyr'',
               isoNow = ''2024-01-01T09:00:00.000Z'' \<rparr>"

definition notificationDemo :: Workflow where
  "notificationDemo = workflow (generateWorkflow demoEnv ''Send an urgent email to the user when ready'')"

definition firstFails :: World where
  "firstFails = \<lparr> dateNowMs = 1700, now = (\<lambda>k. ''T'' @ showNat k), outcome = (\<lambda>k. k \<noteq> 0) \<rparr>"

definition secondFails :: World where
  "secondFails = \<lparr> dateNowMs = 1700, now = (\<lambda>k. ''T'' @ showNat k), outcome = (\<lambda>k. k \<noteq> 1) \<rparr>"

definition statesOf :: "error + ExecState list \<Rightarrow> ExecState list" where
  "statesOf r = (case r of Inl e \<Rightarrow> [] | Inr tr \<Rightarrow> tr)"

definition firstFailsTrace :: "ExecState list" where
  "firstFailsTrace = statesOf (executeTrace firstFails True notificationDemo)"

definition secondFailsTrace :: "ExecState list" where
  "secondFailsTrace = statesOf (executeTrace secondFails True notificationDemo)"

section \<open>Properties of the generator\<close>

lemma foldl_snoc_map: "foldl (\<lambda>acc x. acc @ [f x]) a xs = a @ map f xs"
  by (induction xs arbitrary: a) simp_all

text \<open>Which inputs take the reminder branch.\<close>

lemma reminder_branch:
  assumes "10 \<le> length (trim (toLowerCase u))"
    and "str_includes (trim (toLowerCase u)) '' ''"
    and "str_includes (trim (toLowerCase u)) ''remind''
         \<or> str_includes (trim (toLowerCase u)) ''notification''
         \<or> str_includes (trim (toLowerCase u)) ''alert''"
  shows "generateWorkflow env u =
           \<lparr> workflow = generateReminderWorkflow env u (trim (toLowerCase u)),
             clarificationNeeded = None, clarificationQuestion = None \<rparr>"
  using assms by (simp add: generateWorkflow_def Let_def)

text \<open>
  Claim C7. Every input whose trimmed lower-cased form has at least 10
  characters, contains a space and contains \<open>remind\<close> yields a workflow with
  domain \<open>reminders\<close> and exactly three steps \<open>step-1\<close>, \<open>step-2\<close>, \<open>step-3\<close>, where
  \<open>step-2\<close> depends on \<open>step-1\<close>, \<open>step-3\<close> depends on \<open>step-2\<close>, and the reasoning
  of every step is a non-empty string.
\<close>

theorem remind_inputs_give_reminder_workflow:
  assumes "10 \<le> length (trim (toLowerCase u))"
    and "str_includes (trim (toLowerCase u)) '' ''"
    and "str_includes (trim (toLowerCase u)) ''remind''"
  shows "wf_domain (workflow (generateWorkflow env u)) = Reminders
       \<and> length (wf_steps (workflow (generateWorkflow env u))) = 3
       \<and> map step_id (wf_steps (workflow (generateWorkflow env u)))
            = [''step-1'', ''step-2'', ''step-3'']
       \<and> map step_dependencies (wf_steps (workflow (generateWorkflow env u)))
            = [None, Some [''step-1''], Some [''step-2'']]
       \<and> (\<forall>s \<in> set (wf_steps (workflow (generateWorkflow env u))). step_reasoning s \<noteq> [])"
  using assms by (simp add: generateWorkflow_def generateReminderWorkflow_def Let_def)

theorem remind_inputs_witness:
  "10 \<le> length (trim (toLowerCase ''send me a reminder''))
   \<and> str_includes (trim (toLowerCase ''send me a reminder'')) '' ''
   \<and> str_includes (trim (toLowerCase ''send me a reminder'')) ''remind''
   \<and> wf_domain (workflow (generateWorkflow demoEnv ''send me a reminder'')) = Reminders
   \<and> length (wf_steps (workflow (generateWorkflow demoEnv ''send me a reminder''))) = 3
   \<and> map step_id (wf_steps (workflow (generateWorkflow demoEnv ''send me a reminder'')))
        = [''step-1'', ''step-2'', ''step-3'']
   \<and> map step_dependencies (wf_steps (workflow (generateWorkflow demoEnv ''send me a reminder'')))
        = [None, Some [''step-1''], Some [''step-2'']]
   \<and> map (\<lambda>s. step_reasoning s \<noteq> [])
         (wf_steps (workflow (generateWorkflow demoEnv ''send me a reminder'')))
        = [True, True, True]"
proof -
  have a: "10 \<le> length (trim (toLowerCase ''send me a reminder''))" by code_simp
  have b: "str_includes (trim (toLowerCase ''send me a reminder'')) '' ''" by code_simp
  have c: "str_includes (trim (toLowerCase ''send me a reminder'')) ''remind''" by code_simp
  from remind_inputs_give_reminder_workflow [OF a b c, of demoEnv] a b c
  show ?thesis by (auto simp: map_eq_Cons_conv)
qed

text \<open>
  Claim C8. Every input whose trimmed lower-cased form is shorter than 10
  characters or contains no space yields \<open>clarificationNeeded = true\<close> with the
  fixed question and the empty workflow: no steps, domain \<open>general\<close>, a manual
  trigger and the original text in the metadata. The guard comes first: the
  result does not depend on any keyword of the input. \<open>generateWorkflow\<close> is a
  total function with no error value, as the source has no \<open>throw\<close> and reads a
  match group only after testing the match.
\<close>

theorem vague_input_asks_for_clarification:
  assumes "length (trim (toLowerCase u)) < 10 \<or> \<not> str_includes (trim (toLowerCase u)) '' ''"
  shows "clarificationNeeded (generateWorkflow env u) = Some True
       \<and> clarificationQuestion (generateWorkflow env u) = Some clarifyingQuestion
       \<and> workflow (generateWorkflow env u) = createEmptyWorkflow env u
       \<and> wf_steps (workflow (generateWorkflow env u)) = []
       \<and> wf_domain (workflow (generateWorkflow env u)) = General
       \<and> trigger_type (wf_trigger (workflow (generateWorkflow env u))) = Manual
       \<and> userInput (wf_metadata (workflow (generateWorkflow env u))) = u"
proof -
  from assms have "generateWorkflow env u =
           \<lparr> workflow = createEmptyWorkflow env u, clarificationNeeded = Some True,
             clarificationQuestion = Some clarifyingQuestion \<rparr>"
    by (simp add: generateWorkflow_def Let_def)
  then show ?thesis by (simp add: createEmptyWorkflow_def)
qed

theorem vague_input_witness:
  "\<not> str_includes (trim (toLowerCase ''RemindMeTomorrow'')) '' ''
   \<and> str_includes (trim (toLowerCase ''RemindMeTomorrow'')) ''remind''
   \<and> clarificationNeeded (generateWorkflow demoEnv ''RemindMeTomorrow'') = Some True
   \<and> wf_steps (workflow (generateWorkflow demoEnv ''RemindMeTomorrow'')) = []
   \<and> wf_domain (workflow (generateWorkflow demoEnv ''RemindMeTomorrow'')) = General
   \<and> trigger_type (wf_trigger (workflow (generateWorkflow demoEnv ''RemindMeTomorrow''))) = Manual
   \<and> userInput (wf_metadata (workflow (generateWorkflow demoEnv ''RemindMeTomorrow'')))
        = ''RemindMeTomorrow''"
proof -
  have a: "\<not> str_includes (trim (toLowerCase ''RemindMeTomorrow'')) '' ''" by code_simp
  have b: "str_includes (trim (toLowerCase ''RemindMeTomorrow'')) ''remind''" by code_simp
  from a have "length (trim (toLowerCase ''RemindMeTomorrow'')) < 10
      \<or> \<not> str_includes (trim (toLowerCase ''RemindMeTomorrow'')) '' ''" by (rule disjI2)
  from vague_input_asks_for_clarification [OF this, of demoEnv] a b
  show ?thesis by (elim conjE) (intro conjI; assumption)
qed

text \<open>
  Claim C1. The input \<open>Send an email notification when a new user signs up\<close>
  contains the word \<open>notification\<close>, which the reminder branch tests before the
  notification branch tests \<open>email\<close> and \<open>send\<close>. The workflow returned is the
  reminder workflow: domain \<open>reminders\<close>, a \<open>schedule\<close> trigger with no event, and
  the three reminder steps, none of which has a \<open>channel\<close> or a \<open>priority\<close>.
\<close>

theorem signup_notification_input_gives_reminder_workflow:
  "wf_domain (workflow (generateWorkflow env
       ''Send an email notification when a new user signs up'')) = Reminders
   \<and> trigger_type (wf_trigger (workflow (generateWorkflow env
       ''Send an email notification when a new user signs up''))) = Schedule
   \<and> map_option event (trigger_config (wf_trigger (workflow (generateWorkflow env
       ''Send an email notification when a new user signs up'')))) = Some None
   \<and> map step_title (wf_steps (workflow (generateWorkflow env
       ''Send an email notification when a new user signs up'')))
        = [''Check Schedule Time'', ''Send Reminder'', ''Log Event'']
   \<and> map (\<lambda>s. (map_of (step_config s) ''channel'', map_of (step_config s) ''priority''))
        (wf_steps (workflow (generateWorkflow env
           ''Send an email notification when a new user signs up'')))
        = [(None, None), (None, None), (None, None)]"
proof -
  let ?u = "''Send an email notification when a new user signs up''"
  have a: "10 \<le> length (trim (toLowerCase ?u))" by code_simp
  have b: "str_includes (trim (toLowerCase ?u)) '' ''" by code_simp
  have c: "str_includes (trim (toLowerCase ?u)) ''notification''" by code_simp
  from c have "str_includes (trim (toLowerCase ?u)) ''remind''
         \<or> str_includes (trim (toLowerCase ?u)) ''notification''
         \<or> str_includes (trim (toLowerCase ?u)) ''alert''" by blast
  from reminder_branch [OF a b this, of env]
  show ?thesis by (simp add: generateReminderWorkflow_def Let_def)
qed

text \<open>
  Claim C2. The input \<open>Set up a new React project with TypeScript and testing\<close>
  contains \<open>set up\<close> in two words and none of \<open>setup\<close>, \<open>create project\<close>,
  \<open>initialize\<close>, so the app-setup branch is not taken. No other keyword and no
  verb of the vocabulary occurs either: the workflow returned is the general
  one, with domain \<open>general\<close> and the single step \<open>Process\<close>.
\<close>

theorem react_setup_input_gives_general_workflow:
  "wf_domain (workflow (generateWorkflow env
       ''Set up a new React project with TypeScript and testing'')) = General
   \<and> map step_title (wf_steps (workflow (generateWorkflow env
       ''Set up a new React project with TypeScript and testing''))) = [''Process'']
   \<and> map step_config (wf_steps (workflow (generateWorkflow env
       ''Set up a new React project with TypeScript and testing'')))
        = [[(''action'', JStr ''process'')]]"
  by code_simp

subsection \<open>The general template\<close>

lemma generalSteps:
  "foldl (\<lambda>steps (index, action). steps @ [actionStep index action]) acc xs
     = acc @ map (\<lambda>(index, action). actionStep index action) xs"
  by (induction xs arbitrary: acc) auto

lemma enumerate_Nil_iff: "enumerate n xs = [] \<longleftrightarrow> xs = []"
  by (metis length_enumerate length_0_conv)

lemma extractActions_nonempty: "extractActions input \<noteq> []"
  by (simp add: extractActions_def Let_def)

text \<open>Which inputs reach the general template.\<close>

lemma general_branch:
  assumes "10 \<le> length (trim (toLowerCase u))"
    and "str_includes (trim (toLowerCase u)) '' ''"
    and "\<not> str_includes (trim (toLowerCase u)) ''remind''"
        "\<not> str_includes (trim (toLowerCase u)) ''notification''"
        "\<not> str_includes (trim (toLowerCase u)) ''alert''"
    and "\<not> str_includes (trim (toLowerCase u)) ''setup''"
        "\<not> str_includes (trim (toLowerCase u)) ''create project''"
        "\<not> str_includes (trim (toLowerCase u)) ''initialize''"
    and "\<not> str_includes (trim (toLowerCase u)) ''email''"
        "\<not> str_includes (trim (toLowerCase u)) ''send''"
        "\<not> str_includes (trim (toLowerCase u)) ''notify''"
  shows "workflow (generateWorkflow env u) = generateGeneralWorkflow env u (trim (toLowerCase u))"
  using assms by (simp add: generateWorkflow_def Let_def)

text \<open>
  The steps of the general template are the action steps of the extracted
  verbs. As \<open>extractActions\<close> never returns the empty list, the step
  \<open>Execute Workflow\<close> that carries the raw input is never produced.
\<close>

lemma general_steps_are_action_steps:
  "wf_steps (generateGeneralWorkflow env u input)
     = map (\<lambda>(index, action). actionStep index action) (enumerate 0 (extractActions input))"
  using extractActions_nonempty [of input]
  by (simp add: generateGeneralWorkflow_def Let_def generalSteps enumerate_Nil_iff)

text \<open>
  When a verb of the vocabulary occurs, there is one action step per occurring
  verb, in the order of the vocabulary; the step at position \<open>k\<close> is titled with
  the capitalised verb and, after the first, depends on the step before it.
\<close>

lemma general_steps_of_found_verbs:
  assumes "filter (str_includes input) actionWords \<noteq> []"
  shows "length (wf_steps (generateGeneralWorkflow env u input))
           = length (filter (str_includes input) actionWords)"
    and "k < length (filter (str_includes input) actionWords) \<Longrightarrow>
         wf_steps (generateGeneralWorkflow env u input) ! k
           = actionStep k (filter (str_includes input) actionWords ! k)"
  using assms
  by (simp_all add: general_steps_are_action_steps extractActions_def Let_def nth_enumerate_eq)

text \<open>
  Claim C5. The input \<open>make some coffee for me\<close> reaches the general template
  and holds no verb of the vocabulary. The workflow has one step, but it is the
  action step of the default verb \<open>process\<close>: its description is
  \<open>Execute: process\<close>, not the raw input.
\<close>

theorem no_verb_input_gives_process_step:
  "filter (str_includes (trim (toLowerCase ''make some coffee for me''))) actionWords = []
   \<and> wf_domain (workflow (generateWorkflow env ''make some coffee for me'')) = General
   \<and> wf_steps (workflow (generateWorkflow env ''make some coffee for me''))
        = [actionStep 0 ''process'']
   \<and> map step_title (wf_steps (workflow (generateWorkflow env ''make some coffee for me'')))
        = [''Process'']
   \<and> map step_description (wf_steps (workflow (generateWorkflow env ''make some coffee for me'')))
        = [''Execute: process'']"
  by code_simp

section \<open>Properties of the executor\<close>

subsection \<open>Auxiliary facts\<close>

lemma initLogs_map:
  "initLogs steps =
     map (\<lambda>step. \<lparr> stepId = step_id step, stepTitle = step_title step,
                    log_status = Pending, log_startTime = None,
                    log_endTime = None, log_output = None, log_error = None \<rparr>) steps"
  unfolding initLogs_def by (simp add: foldl_snoc_map)

lemma findIndex_Some: "findIndex P xs = Some i \<Longrightarrow> i < length xs \<and> P (xs ! i)"
  by (induction xs arbitrary: i) (auto split: if_splits)

lemma findIndex_exists: "\<exists>x\<in>set xs. P x \<Longrightarrow> \<exists>i. findIndex P xs = Some i"
  by (induction xs) auto

lemma findIndex_None: "findIndex P xs = None \<Longrightarrow> \<forall>x\<in>set xs. \<not> P x"
  by (induction xs) (auto split: if_splits)

lemma notifyShallow_frame [simp]:
  "heap (notifyShallow cb s) = heap s"
  "execution (notifyShallow cb s) = execution s"
  "simulated (notifyShallow cb s) = simulated s"
  "clockReads (notifyShallow cb s) = clockReads s"
  "liveLogs (notifyShallow cb s) = liveLogs s"
  by (simp_all add: notifyShallow_def liveLogs_def)

lemma notifyDeep_frame [simp]:
  "execution (notifyDeep cb s) = execution s"
  "simulated (notifyDeep cb s) = simulated s"
  "clockReads (notifyDeep cb s) = clockReads s"
  "liveLogs (notifyDeep cb s) = liveLogs s"
  by (simp_all add: notifyDeep_def liveLogs_def)

lemma modifyLog_frame [simp]:
  "execution (modifyLog i f s) = execution s"
  "simulated (modifyLog i f s) = simulated s"
  "emitted (modifyLog i f s) = emitted s"
  "clockReads (modifyLog i f s) = clockReads s"
  "nextAddr (modifyLog i f s) = nextAddr s"
  "liveLogs (modifyLog i f s) = (liveLogs s)[i := f (liveLogs s ! i)]"
  by (simp_all add: modifyLog_def liveLogs_def)

lemma failExecution_frame [simp]:
  "status (execution (failExecution s)) = ExecFailed"
  "logs (execution (failExecution s)) = logs (execution s)"
  "simulated (failExecution s) = simulated s"
  "emitted (failExecution s) = emitted s"
  "heap (failExecution s) = heap s"
  "liveLogs (failExecution s) = liveLogs s"
  by (simp_all add: failExecution_def liveLogs_def)

lemma failDependencies_frame [simp]:
  "execution (failDependencies i s) = execution s"
  "simulated (failDependencies i s) = simulated s"
  "emitted (failDependencies i s) = emitted s"
  "clockReads (failDependencies i s) = clockReads s"
  "nextAddr (failDependencies i s) = nextAddr s"
  by (simp_all add: failDependencies_def)

lemma failDependencies_logs:
  "liveLogs (failDependencies i s) =
     (liveLogs s)[i := (liveLogs s ! i)\<lparr> log_status := Failed, log_error := Some ''Dependencies not met'' \<rparr>]"
  by (simp add: failDependencies_def)

lemma startStep_frame [simp]:
  "execution (startStep world cb i s) = execution s"
  "simulated (startStep world cb i s) = simulated s"
  by (simp_all add: startStep_def readClock_def)

lemma startStep_logs:
  "liveLogs (startStep world cb i s) =
     (liveLogs s)[i := (liveLogs s ! i)\<lparr> log_status := Running,
                                          log_startTime := Some (now world (clockReads s)) \<rparr>]"
  by (simp add: startStep_def readClock_def liveLogs_def modifyLog_def notifyDeep_def)

lemma success_simulate [simp]: "success (simulateStepExecution d ty ti cfg) = d"
  by (simp add: simulateStepExecution_def Let_def)

lemma map_update_same: "(map f xs)[i := f (xs ! i)] = map f xs"
proof (cases "i < length xs")
  case True
  then have "(map f xs)[i := f (xs ! i)] = (map f xs)[i := map f xs ! i]" by simp
  then show ?thesis by (simp only: list_update_id)
next
  case False
  then show ?thesis by (simp add: list_update_beyond)
qed

lemma finishStep_frame [simp]:
  "success (fst (finishStep world cb step i s)) = outcome world (length (simulated s))"
  "execution (snd (finishStep world cb step i s)) = execution s"
  "simulated (snd (finishStep world cb step i s)) =
     simulated s @ [(step, outcome world (length (simulated s)))]"
  by (simp_all add: finishStep_def readClock_def Let_def)

lemma finishStep_logs:
  "liveLogs (snd (finishStep world cb step i s)) =
     (liveLogs s)[i := (liveLogs s ! i)
        \<lparr> log_status := (if outcome world (length (simulated s)) then Completed else Failed),
          log_endTime := Some (now world (clockReads s)),
          log_output := sim_output (simulateStepExecution (outcome world (length (simulated s)))
                                     (step_type step) (step_title step) (step_config step)),
          log_error := sim_error (simulateStepExecution (outcome world (length (simulated s)))
                                    (step_type step) (step_title step) (step_config step)) \<rparr>]"
  by (simp add: finishStep_def readClock_def liveLogs_def modifyLog_def notifyDeep_def Let_def)

lemma ids_preserved [simp]:
  "map stepId (liveLogs (failDependencies i s)) = map stepId (liveLogs s)"
  "map stepId (liveLogs (startStep world cb i s)) = map stepId (liveLogs s)"
  "map stepId (liveLogs (snd (finishStep world cb step i s))) = map stepId (liveLogs s)"
  by (simp_all add: failDependencies_logs startStep_logs finishStep_logs map_update
        map_update_same)

lemma critical_append:
  "criticalFailure (s\<lparr> simulated := simulated s @ [(st, ok)] \<rparr>)
     = (criticalFailure s \<or> (\<not> ok \<and> step_type st \<noteq> Condition))"
  by (simp add: criticalFailure_def)

text \<open>What one pass through the loop body can do.\<close>

lemma runStep_result:
  assumes "runStep world cb step s = Inr (fl, sts)"
  obtains
    (deps) i where "findIndex (\<lambda>log. stepId log = step_id step) (liveLogs s) = Some i"
      "fl = Next" "sts = [failDependencies i s]"
  | (ran) i where "findIndex (\<lambda>log. stepId log = step_id step) (liveLogs s) = Some i"
      "fl = Next"
      "sts = [startStep world cb i s, snd (finishStep world cb step i (startStep world cb i s))]"
      "outcome world (length (simulated s)) \<or> step_type step = Condition"
  | (halt) i where "findIndex (\<lambda>log. stepId log = step_id step) (liveLogs s) = Some i"
      "fl = Break"
      "sts = [startStep world cb i s, snd (finishStep world cb step i (startStep world cb i s)),
              failExecution (snd (finishStep world cb step i (startStep world cb i s)))]"
      "\<not> outcome world (length (simulated s))" "step_type step \<noteq> Condition"
  using assms unfolding runStep_def
  by (auto simp: Let_def case_prod_beta split: option.splits if_splits)

lemma runStep_defined:
  assumes "step_id step \<in> stepId ` set (liveLogs s)"
  shows "\<exists>fl sts. runStep world cb step s = Inr (fl, sts)"
proof -
  from assms have "\<exists>x\<in>set (liveLogs s). stepId x = step_id step" by auto
  then obtain i where "findIndex (\<lambda>log. stepId log = step_id step) (liveLogs s) = Some i"
    using findIndex_exists [of "liveLogs s" "\<lambda>log. stepId log = step_id step"] by blast
  then show ?thesis
    unfolding runStep_def by (simp add: Let_def case_prod_beta)
qed

lemma runStep_ids:
  assumes "runStep world cb step s = Inr (fl, sts)" and "t \<in> set sts"
  shows "map stepId (liveLogs t) = map stepId (liveLogs s) \<and> logs (execution t) = logs (execution s)"
  using assms(1)
proof (cases rule: runStep_result)
  case (deps i) with assms(2) show ?thesis by simp
next
  case (ran i) with assms(2) show ?thesis by auto
next
  case (halt i) with assms(2) show ?thesis by auto
qed

lemma runStep_nonempty:
  assumes "runStep world cb step s = Inr (fl, sts)"
  shows "sts \<noteq> []"
  using assms by (cases rule: runStep_result) simp_all

lemma runSteps_ids:
  assumes "set (map step_id steps) \<subseteq> stepId ` set (liveLogs s)"
  shows "\<exists>sts. runSteps world cb steps s = Inr sts
           \<and> (\<forall>t\<in>set sts. map stepId (liveLogs t) = map stepId (liveLogs s)
                            \<and> logs (execution t) = logs (execution s))"
  using assms
proof (induction steps arbitrary: s)
  case Nil
  then show ?case by simp
next
  case (Cons step rest)
  from Cons.prems have "step_id step \<in> stepId ` set (liveLogs s)" by simp
  then obtain fl sts where r: "runStep world cb step s = Inr (fl, sts)"
    using runStep_defined by blast
  have ids: "\<forall>t\<in>set sts. map stepId (liveLogs t) = map stepId (liveLogs s)
                   \<and> logs (execution t) = logs (execution s)"
    using runStep_ids [OF r] by blast
  have ne: "sts \<noteq> []" using runStep_nonempty [OF r] .
  show ?case
  proof (cases fl)
    case Break
    with r ids show ?thesis by simp
  next
    case Next
    let ?s' = "last (s # sts)"
    from ne have "?s' \<in> set sts" by simp
    with ids have same: "map stepId (liveLogs ?s') = map stepId (liveLogs s)"
       and samel: "logs (execution ?s') = logs (execution s)" by blast+
    from same have "stepId ` set (liveLogs ?s') = stepId ` set (liveLogs s)"
      by (metis set_map)
    with Cons.prems have "set (map step_id rest) \<subseteq> stepId ` set (liveLogs ?s')" by simp
    from Cons.IH [OF this] obtain sts' where
      r': "runSteps world cb rest ?s' = Inr sts'"
      and ids': "\<forall>t\<in>set sts'. map stepId (liveLogs t) = map stepId (liveLogs ?s')
                       \<and> logs (execution t) = logs (execution ?s')" by blast
    from r r' Next have "runSteps world cb (step # rest) s = Inr (sts @ sts')" by simp
    moreover have "\<forall>t\<in>set (sts @ sts'). map stepId (liveLogs t) = map stepId (liveLogs s)
                       \<and> logs (execution t) = logs (execution s)"
      using ids ids' same samel by auto
    ultimately show ?thesis by blast
  qed
qed

lemma completeExecution_frame [simp]:
  "simulated (completeExecution world cb s) = simulated s"
  "liveLogs (completeExecution world cb s) = liveLogs s"
  "logs (execution (completeExecution world cb s)) = logs (execution s)"
  "status (execution (completeExecution world cb s)) =
     (if status (execution s) = ExecRunning then ExecCompleted else status (execution s))"
  by (simp_all add: completeExecution_def readClock_def liveLogs_def Let_def)

lemma critical_frame [simp]:
  "criticalFailure (failDependencies i s) = criticalFailure s"
  "criticalFailure (startStep world cb i s) = criticalFailure s"
  "criticalFailure (failExecution s) = criticalFailure s"
  "criticalFailure (completeExecution world cb s) = criticalFailure s"
  "criticalFailure (notifyShallow cb s) = criticalFailure s"
  "criticalFailure (snd (finishStep world cb step i s)) =
     (criticalFailure s \<or> (\<not> outcome world (length (simulated s)) \<and> step_type step \<noteq> Condition))"
  by (simp_all add: criticalFailure_def)

lemma runSteps_split:
  assumes "runSteps world cb steps s = Inr sts"
    and "\<not> criticalFailure s" and "status (execution s) = ExecRunning"
  shows "(\<forall>t\<in>set sts. \<not> criticalFailure t \<and> status (execution t) = ExecRunning)
       \<or> (\<exists>pre t. sts = pre @ [t, failExecution t] \<and> criticalFailure t
              \<and> (\<forall>u\<in>set pre. \<not> criticalFailure u \<and> status (execution u) = ExecRunning))"
  using assms
proof (induction steps arbitrary: s sts)
  case Nil
  then show ?case by simp
next
  case (Cons step rest)
  from Cons.prems(1) obtain fl sts1 where r: "runStep world cb step s = Inr (fl, sts1)"
    by (cases "runStep world cb step s") auto
  from r show ?case
  proof (cases rule: runStep_result)
    case (deps i)
    let ?s' = "failDependencies i s"
    from Cons.prems(1) r deps obtain sts' where
      r': "runSteps world cb rest ?s' = Inr sts'" and sts: "sts = ?s' # sts'"
      by (auto split: sum.splits)
    have ok: "\<not> criticalFailure ?s'" "status (execution ?s') = ExecRunning"
      using Cons.prems(2,3) by simp_all
    from Cons.IH [OF r' ok] show ?thesis
    proof
      assume "\<forall>t\<in>set sts'. \<not> criticalFailure t \<and> status (execution t) = ExecRunning"
      with ok sts show ?thesis by simp
    next
      assume "\<exists>pre t. sts' = pre @ [t, failExecution t] \<and> criticalFailure t
                \<and> (\<forall>u\<in>set pre. \<not> criticalFailure u \<and> status (execution u) = ExecRunning)"
      then obtain pre t where "sts' = pre @ [t, failExecution t]" "criticalFailure t"
        "\<forall>u\<in>set pre. \<not> criticalFailure u \<and> status (execution u) = ExecRunning" by blast
      with ok sts have "sts = (?s' # pre) @ [t, failExecution t] \<and> criticalFailure t
         \<and> (\<forall>u\<in>set (?s' # pre). \<not> criticalFailure u \<and> status (execution u) = ExecRunning)"
        by simp
      then show ?thesis by blast
    qed
  next
    case (ran i)
    let ?s1 = "startStep world cb i s"
    let ?s2 = "snd (finishStep world cb step i ?s1)"
    from Cons.prems(1) r ran obtain sts' where
      r': "runSteps world cb rest ?s2 = Inr sts'" and sts: "sts = ?s1 # ?s2 # sts'"
      by (auto split: sum.splits)
    have ok1: "\<not> criticalFailure ?s1" "status (execution ?s1) = ExecRunning"
      using Cons.prems(2,3) by simp_all
    have ok2: "\<not> criticalFailure ?s2" "status (execution ?s2) = ExecRunning"
      using Cons.prems(2,3) ran(4) by auto
    from Cons.IH [OF r' ok2] show ?thesis
    proof
      assume "\<forall>t\<in>set sts'. \<not> criticalFailure t \<and> status (execution t) = ExecRunning"
      with ok1 ok2 sts show ?thesis by simp
    next
      assume "\<exists>pre t. sts' = pre @ [t, failExecution t] \<and> criticalFailure t
                \<and> (\<forall>u\<in>set pre. \<not> criticalFailure u \<and> status (execution u) = ExecRunning)"
      then obtain pre t where "sts' = pre @ [t, failExecution t]" "criticalFailure t"
        "\<forall>u\<in>set pre. \<not> criticalFailure u \<and> status (execution u) = ExecRunning" by blast
      with ok1 ok2 sts have "sts = (?s1 # ?s2 # pre) @ [t, failExecution t] \<and> criticalFailure t
         \<and> (\<forall>u\<in>set (?s1 # ?s2 # pre). \<not> criticalFailure u \<and> status (execution u) = ExecRunning)"
        by simp
      then show ?thesis by blast
    qed
  next
    case (halt i)
    let ?s1 = "startStep world cb i s"
    let ?s2 = "snd (finishStep world cb step i ?s1)"
    from Cons.prems(1) r halt have sts: "sts = [?s1] @ [?s2, failExecution ?s2]" by simp
    have ok1: "\<not> criticalFailure ?s1" "status (execution ?s1) = ExecRunning"
      using Cons.prems(2,3) by simp_all
    have "criticalFailure ?s2" using halt(4,5) by simp
    with sts ok1 have "sts = [?s1] @ [?s2, failExecution ?s2] \<and> criticalFailure ?s2
         \<and> (\<forall>u\<in>set [?s1]. \<not> criticalFailure u \<and> status (execution u) = ExecRunning)"
      by simp
    then show ?thesis by blast
  qed
qed

lemma initState_facts [simp]:
  "liveLogs (initState world w) = initLogs (wf_steps w)"
  "simulated (initState world w) = []"
  "status (execution (initState world w)) = ExecRunning"
  "logs (execution (initState world w)) = 0"
  by (simp_all add: initState_def liveLogs_def)

lemma ids_initLogs [simp]: "map stepId (initLogs steps) = map step_id steps"
  by (simp add: initLogs_map comp_def)

lemma executeTrace_defined:
  "\<exists>sts. runSteps world cb (wf_steps w) (notifyShallow cb (initState world w)) = Inr sts
     \<and> executeTrace world cb w =
         Inr (notifyShallow cb (initState world w) # sts @
              [completeExecution world cb (last (notifyShallow cb (initState world w) # sts))])
     \<and> (\<forall>t\<in>set sts. map stepId (liveLogs t) = map step_id (wf_steps w)
                      \<and> logs (execution t) = 0)"
proof -
  let ?s0 = "notifyShallow cb (initState world w)"
  have "set (map step_id (wf_steps w)) \<subseteq> stepId ` set (liveLogs ?s0)"
    by (simp add: initLogs_map image_image)
  from runSteps_ids [OF this, of world cb] obtain sts where
    r: "runSteps world cb (wf_steps w) ?s0 = Inr sts"
    and ids: "\<forall>t\<in>set sts. map stepId (liveLogs t) = map stepId (liveLogs ?s0)
                \<and> logs (execution t) = logs (execution ?s0)" by blast
  from r have "executeTrace world cb w = Inr (?s0 # sts @ [completeExecution world cb (last (?s0 # sts))])"
    by (simp add: executeTrace_def Let_def)
  with r ids show ?thesis by simp
qed

lemma depsComplete_iff:
  "depsComplete ls deps \<longleftrightarrow>
     (\<forall>d\<in>set deps. \<exists>l. find (\<lambda>log. stepId log = d) ls = Some l \<and> log_status l = Completed)"
  by (auto simp: depsComplete_def list_all_iff split: option.splits)

lemma trace_shape:
  "\<exists>tr pre post fin. executeTrace world cb w = Inr tr \<and> executeWorkflow world cb w = Inr fin
      \<and> tr = pre @ post @ [fin]
      \<and> (\<forall>u\<in>set pre. \<not> criticalFailure u)
      \<and> (\<forall>u\<in>set post. criticalFailure u \<and> liveLogs u = liveLogs fin)
      \<and> (status (execution fin) = ExecFailed \<longleftrightarrow> criticalFailure fin)
      \<and> (status (execution fin) \<noteq> ExecFailed \<longrightarrow> status (execution fin) = ExecCompleted)"
proof -
  let ?s0 = "notifyShallow cb (initState world w)"
  from executeTrace_defined [of world cb w] obtain sts where
    r: "runSteps world cb (wf_steps w) ?s0 = Inr sts"
    and tr: "executeTrace world cb w = Inr (?s0 # sts @ [completeExecution world cb (last (?s0 # sts))])"
    by blast
  let ?fin = "completeExecution world cb (last (?s0 # sts))"
  have w: "executeWorkflow world cb w = Inr ?fin"
    using tr by (simp add: executeWorkflow_def)
  have s0: "\<not> criticalFailure ?s0" "status (execution ?s0) = ExecRunning"
    by (simp_all add: criticalFailure_def)
  from runSteps_split [OF r s0] show ?thesis
  proof
    assume a: "\<forall>t\<in>set sts. \<not> criticalFailure t \<and> status (execution t) = ExecRunning"
    have "last (?s0 # sts) \<in> set (?s0 # sts)" by (rule last_in_set) simp
    with a s0 have "\<not> criticalFailure (last (?s0 # sts))"
      "status (execution (last (?s0 # sts))) = ExecRunning" by auto
    then have f: "\<not> criticalFailure ?fin" "status (execution ?fin) = ExecCompleted" by simp_all
    have "?s0 # sts @ [?fin] = (?s0 # sts) @ [] @ [?fin]" by simp
    moreover have "\<forall>u\<in>set (?s0 # sts). \<not> criticalFailure u" using a s0 by simp
    ultimately show ?thesis using tr w f
      by (intro exI [of _ "?s0 # sts @ [?fin]"] exI [of _ "?s0 # sts"] exI [of _ "[]"] exI [of _ ?fin])
         simp
  next
    assume "\<exists>pre t. sts = pre @ [t, failExecution t] \<and> criticalFailure t
              \<and> (\<forall>u\<in>set pre. \<not> criticalFailure u \<and> status (execution u) = ExecRunning)"
    then obtain pre t where sts: "sts = pre @ [t, failExecution t]" and c: "criticalFailure t"
      and pre: "\<forall>u\<in>set pre. \<not> criticalFailure u \<and> status (execution u) = ExecRunning" by blast
    from sts have lst: "last (?s0 # sts) = failExecution t" by simp
    have f: "criticalFailure ?fin" "status (execution ?fin) = ExecFailed" "liveLogs ?fin = liveLogs t"
      using c unfolding lst by simp_all
    have "?s0 # sts @ [?fin] = (?s0 # pre) @ [t, failExecution t] @ [?fin]" using sts by simp
    moreover have "\<forall>u\<in>set (?s0 # pre). \<not> criticalFailure u" using pre s0 by simp
    moreover have "\<forall>u\<in>set [t, failExecution t]. criticalFailure u \<and> liveLogs u = liveLogs ?fin"
      using c f by simp
    ultimately show ?thesis using tr w f
      by (intro exI [of _ "?s0 # sts @ [?fin]"] exI [of _ "?s0 # pre"]
            exI [of _ "[t, failExecution t]"] exI [of _ ?fin]) simp
  qed
qed

text \<open>The log array keeps its address, its length and its identifiers.\<close>

lemma run_log_shape:
  "\<exists>tr fin. executeTrace world cb w = Inr tr \<and> executeWorkflow world cb w = Inr fin
      \<and> fin \<in> set tr
      \<and> length (liveLogs fin) = length (wf_steps w)
      \<and> map stepId (liveLogs fin) = map step_id (wf_steps w)
      \<and> (\<forall>s\<in>set tr. logs (execution s) = logs (execution fin)
                     \<and> length (liveLogs s) = length (wf_steps w)
                     \<and> map stepId (liveLogs s) = map step_id (wf_steps w))"
proof -
  let ?s0 = "notifyShallow cb (initState world w)"
  from executeTrace_defined [of world cb w] obtain sts where
    tr: "executeTrace world cb w = Inr (?s0 # sts @ [completeExecution world cb (last (?s0 # sts))])"
    and ids: "\<forall>t\<in>set sts. map stepId (liveLogs t) = map step_id (wf_steps w) \<and> logs (execution t) = 0"
    by blast
  let ?fin = "completeExecution world cb (last (?s0 # sts))"
  let ?tr = "?s0 # sts @ [?fin]"
  have l: "last (?s0 # sts) \<in> set (?s0 # sts)" by (rule last_in_set) simp
  have all0: "\<forall>t\<in>set (?s0 # sts). map stepId (liveLogs t) = map step_id (wf_steps w) \<and> logs (execution t) = 0"
    using ids by simp
  with l have fin: "map stepId (liveLogs ?fin) = map step_id (wf_steps w)" "logs (execution ?fin) = 0"
    by simp_all
  have all: "\<forall>t\<in>set ?tr. map stepId (liveLogs t) = map step_id (wf_steps w) \<and> logs (execution t) = 0"
    using all0 fin by simp
  have len: "\<forall>t\<in>set ?tr. length (liveLogs t) = length (wf_steps w)"
  proof
    fix t assume "t \<in> set ?tr"
    with all have "map stepId (liveLogs t) = map step_id (wf_steps w)" by blast
    then show "length (liveLogs t) = length (wf_steps w)" by (rule map_eq_imp_length_eq)
  qed
  have w: "executeWorkflow world cb w = Inr ?fin"
    using tr by (simp add: executeWorkflow_def)
  have "?fin \<in> set ?tr" by simp
  with tr w all len fin show ?thesis by (intro exI [of _ ?tr] exI [of _ ?fin]) simp
qed

subsection \<open>Two runs of the notification workflow\<close>

lemma executeTrace_statesOf:
  "executeTrace world cb w = Inr (statesOf (executeTrace world cb w))"
  using executeTrace_defined [of world cb w] by (auto simp: statesOf_def)

lemma notificationDemo_facts:
  "map (\<lambda>s. (step_id s, step_type s, step_dependencies s)) (wf_steps notificationDemo)
     = [(''step-1'', Condition, None), (''step-2'', Action, Some [''step-1'']),
        (''step-3'', Notification, Some [''step-2'']), (''step-4'', Action, Some [''step-3''])]"
  by code_simp

lemmas exec_defs = executeTrace_def runStep_def startStep_def finishStep_def failDependencies_def
  failExecution_def completeExecution_def notifyShallow_def notifyDeep_def modifyLog_def
  readClock_def initState_def initLogs_map liveLogs_def depsComplete_def statesOf_def
  criticalFailure_def


lemma notificationDemo_cases:
  obtains a b c d where "wf_steps notificationDemo = [a, b, c, d]"
    and "step_id a = ''step-1''" "step_type a = Condition" "step_dependencies a = None"
    and "step_id b = ''step-2''" "step_type b = Action" "step_dependencies b = Some [''step-1'']"
    and "step_id c = ''step-3''" "step_type c = Notification" "step_dependencies c = Some [''step-2'']"
    and "step_id d = ''step-4''" "step_type d = Action" "step_dependencies d = Some [''step-3'']"
  using notificationDemo_facts by (auto simp: map_eq_Cons_conv)


lemma nth_map_eq: "map f xs = ys \<Longrightarrow> i < length ys \<Longrightarrow> f (xs ! i) = ys ! i"
  by (metis length_map nth_map)

text \<open>
  The run of the notification workflow whose first simulated step fails, state
  by state: the identifiers, statuses and errors of the logs, the overall
  status, the address of the log array, whether a critical failure has
  happened, and the addresses of the log arrays of the objects emitted so far.
\<close>

lemma firstFailsTrace_summary:
  "map (\<lambda>s. (map (\<lambda>l. (stepId l, log_status l, log_error l)) (liveLogs s),
             status (execution s), logs (execution s), criticalFailure s,
             map logs (emitted s))) firstFailsTrace =
   [([(''step-1'', Pending, None), (''step-2'', Pending, None),
      (''step-3'', Pending, None), (''step-4'', Pending, None)],
     ExecRunning, 0, False, [0]),
    ([(''step-1'', Running, None), (''step-2'', Pending, None),
      (''step-3'', Pending, None), (''step-4'', Pending, None)],
     ExecRunning, 0, False, [0, 1]),
    ([(''step-1'', Failed, Some ''Simulated execution error''), (''step-2'', Pending, None),
      (''step-3'', Pending, None), (''step-4'', Pending, None)],
     ExecRunning, 0, False, [0, 1, 2]),
    ([(''step-1'', Failed, Some ''Simulated execution error''),
      (''step-2'', Failed, Some ''Dependencies not met''),
      (''step-3'', Pending, None), (''step-4'', Pending, None)],
     ExecRunning, 0, False, [0, 1, 2]),
    ([(''step-1'', Failed, Some ''Simulated execution error''),
      (''step-2'', Failed, Some ''Dependencies not met''),
      (''step-3'', Failed, Some ''Dependencies not met''), (''step-4'', Pending, None)],
     ExecRunning, 0, False, [0, 1, 2]),
    ([(''step-1'', Failed, Some ''Simulated execution error''),
      (''step-2'', Failed, Some ''Dependencies not met''),
      (''step-3'', Failed, Some ''Dependencies not met''),
      (''step-4'', Failed, Some ''Dependencies not met'')],
     ExecRunning, 0, False, [0, 1, 2]),
    ([(''step-1'', Failed, Some ''Simulated execution error''),
      (''step-2'', Failed, Some ''Dependencies not met''),
      (''step-3'', Failed, Some ''Dependencies not met''),
      (''step-4'', Failed, Some ''Dependencies not met'')],
     ExecCompleted, 0, False, [0, 1, 2, 0])]"
proof -
  obtain a b c d where w: "wf_steps notificationDemo = [a, b, c, d]"
    and a: "step_id a = ''step-1''" "step_type a = Condition" "step_dependencies a = None"
    and b: "step_id b = ''step-2''" "step_type b = Action" "step_dependencies b = Some [''step-1'']"
    and c: "step_id c = ''step-3''" "step_type c = Notification" "step_dependencies c = Some [''step-2'']"
    and d: "step_id d = ''step-4''" "step_type d = Action" "step_dependencies d = Some [''step-3'']"
    by (rule notificationDemo_cases)
  show ?thesis
    unfolding firstFailsTrace_def
    by (simp add: exec_defs w a b c d firstFails_def Let_def simulateStepExecution_def)
qed

text \<open>The same for the run whose second simulated step fails.\<close>

lemma secondFailsTrace_summary:
  "map (\<lambda>s. (map (\<lambda>l. (stepId l, log_status l, log_error l)) (liveLogs s),
             status (execution s), logs (execution s), criticalFailure s,
             map logs (emitted s))) secondFailsTrace =
   [([(''step-1'', Pending, None), (''step-2'', Pending, None),
      (''step-3'', Pending, None), (''step-4'', Pending, None)],
     ExecRunning, 0, False, [0]),
    ([(''step-1'', Running, None), (''step-2'', Pending, None),
      (''step-3'', Pending, None), (''step-4'', Pending, None)],
     ExecRunning, 0, False, [0, 1]),
    ([(''step-1'', Completed, None), (''step-2'', Pending, None),
      (''step-3'', Pending, None), (''step-4'', Pending, None)],
     ExecRunning, 0, False, [0, 1, 2]),
    ([(''step-1'', Completed, None), (''step-2'', Running, None),
      (''step-3'', Pending, None), (''step-4'', Pending, None)],
     ExecRunning, 0, False, [0, 1, 2, 3]),
    ([(''step-1'', Completed, None), (''step-2'', Failed, Some ''Simulated execution error''),
      (''step-3'', Pending, None), (''step-4'', Pending, None)],
     ExecRunning, 0, True, [0, 1, 2, 3, 4]),
    ([(''step-1'', Completed, None), (''step-2'', Failed, Some ''Simulated execution error''),
      (''step-3'', Pending, None), (''step-4'', Pending, None)],
     ExecFailed, 0, True, [0, 1, 2, 3, 4]),
    ([(''step-1'', Completed, None), (''step-2'', Failed, Some ''Simulated execution error''),
      (''step-3'', Pending, None), (''step-4'', Pending, None)],
     ExecFailed, 0, True, [0, 1, 2, 3, 4, 0])]"
proof -
  obtain a b c d where w: "wf_steps notificationDemo = [a, b, c, d]"
    and a: "step_id a = ''step-1''" "step_type a = Condition" "step_dependencies a = None"
    and b: "step_id b = ''step-2''" "step_type b = Action" "step_dependencies b = Some [''step-1'']"
    and c: "step_id c = ''step-3''" "step_type c = Notification" "step_dependencies c = Some [''step-2'']"
    and d: "step_id d = ''step-4''" "step_type d = Action" "step_dependencies d = Some [''step-3'']"
    by (rule notificationDemo_cases)
  show ?thesis
    unfolding secondFailsTrace_def
    by (simp add: exec_defs w a b c d secondFails_def Let_def simulateStepExecution_def)
qed

lemma summary_projections:
  assumes "map (\<lambda>l. (stepId l, log_status l, log_error l)) ls = ys"
  shows "map stepId ls = map fst ys"
    and "map log_status ls = map (fst \<circ> snd) ys"
    and "map log_error ls = map (snd \<circ> snd) ys"
  using assms by (auto simp: comp_def)

lemma firstFailsTrace_run: "executeTrace firstFails True notificationDemo = Inr firstFailsTrace"
  unfolding firstFailsTrace_def by (rule executeTrace_statesOf)

lemma secondFailsTrace_run: "executeTrace secondFails True notificationDemo = Inr secondFailsTrace"
  unfolding secondFailsTrace_def by (rule executeTrace_statesOf)

lemma firstFailsTrace_length: "length firstFailsTrace = 7"
  using arg_cong [OF firstFailsTrace_summary, of length] by simp

lemma secondFailsTrace_length: "length secondFailsTrace = 7"
  using arg_cong [OF secondFailsTrace_summary, of length] by simp

lemma firstFails_result:
  "executeWorkflow firstFails True notificationDemo = Inr (firstFailsTrace ! 6)"
proof -
  from firstFailsTrace_length have "firstFailsTrace \<noteq> []" by auto
  with firstFailsTrace_length show ?thesis
    by (simp add: executeWorkflow_def firstFailsTrace_run last_conv_nth)
qed

lemma firstFailsTrace_first_snapshot:
  "map (\<lambda>s. map log_status (seenLogs s (hd (emitted (hd firstFailsTrace))))) firstFailsTrace =
     [[Pending, Pending, Pending, Pending],
      [Running, Pending, Pending, Pending],
      [Failed, Pending, Pending, Pending],
      [Failed, Failed, Pending, Pending],
      [Failed, Failed, Failed, Pending],
      [Failed, Failed, Failed, Failed],
      [Failed, Failed, Failed, Failed]]"
proof -
  obtain a b c d where w: "wf_steps notificationDemo = [a, b, c, d]"
    and a: "step_id a = ''step-1''" "step_type a = Condition" "step_dependencies a = None"
    and b: "step_id b = ''step-2''" "step_type b = Action" "step_dependencies b = Some [''step-1'']"
    and c: "step_id c = ''step-3''" "step_type c = Notification" "step_dependencies c = Some [''step-2'']"
    and d: "step_id d = ''step-4''" "step_type d = Action" "step_dependencies d = Some [''step-3'']"
    by (rule notificationDemo_cases)
  show ?thesis
    unfolding firstFailsTrace_def
    by (simp add: exec_defs w a b c d firstFails_def Let_def seenLogs_def)
qed

lemma firstFailsTrace_second_snapshot:
  "map (\<lambda>s. map log_status (seenLogs s (last (emitted (hd (tl firstFailsTrace))))))
     (tl firstFailsTrace) =
     [[Running, Pending, Pending, Pending],
      [Running, Pending, Pending, Pending],
      [Running, Pending, Pending, Pending],
      [Running, Pending, Pending, Pending],
      [Running, Pending, Pending, Pending],
      [Running, Pending, Pending, Pending]]"
proof -
  obtain a b c d where w: "wf_steps notificationDemo = [a, b, c, d]"
    and a: "step_id a = ''step-1''" "step_type a = Condition" "step_dependencies a = None"
    and b: "step_id b = ''step-2''" "step_type b = Action" "step_dependencies b = Some [''step-1'']"
    and c: "step_id c = ''step-3''" "step_type c = Notification" "step_dependencies c = Some [''step-2'']"
    and d: "step_id d = ''step-4''" "step_type d = Action" "step_dependencies d = Some [''step-3'']"
    by (rule notificationDemo_cases)
  show ?thesis
    unfolding firstFailsTrace_def
    by (simp add: exec_defs w a b c d firstFails_def Let_def seenLogs_def)
qed

subsection \<open>The shape of the log array\<close>

text \<open>
  Claim C9. For every workflow with N steps and every run, whatever outcomes are
  drawn: the run returns a record, without throwing; the returned record has
  exactly N log entries, the k-th with the \<open>stepId\<close> of the k-th step; and in
  every state of the run the record points at the same log array, which has
  these N entries, so that no entry is added or deleted during the run.
\<close>

theorem log_shape_invariant:
  "\<exists>tr fin. executeTrace world cb w = Inr tr \<and> executeWorkflow world cb w = Inr fin
      \<and> fin \<in> set tr
      \<and> length (liveLogs fin) = length (wf_steps w)
      \<and> map stepId (liveLogs fin) = map step_id (wf_steps w)
      \<and> (\<forall>s\<in>set tr. logs (execution s) = logs (execution fin)
                     \<and> length (liveLogs s) = length (wf_steps w)
                     \<and> map stepId (liveLogs s) = map step_id (wf_steps w))"
  by (rule run_log_shape)

text \<open>Claim C9, at the run whose first simulated step fails.\<close>

theorem log_shape_witness:
  "executeTrace firstFails True notificationDemo = Inr firstFailsTrace
   \<and> executeWorkflow firstFails True notificationDemo = Inr (firstFailsTrace ! 6)
   \<and> length firstFailsTrace = 7
   \<and> length (wf_steps notificationDemo) = 4
   \<and> length (liveLogs (firstFailsTrace ! 6)) = 4
   \<and> map stepId (liveLogs (firstFailsTrace ! 6)) = [''step-1'', ''step-2'', ''step-3'', ''step-4'']
   \<and> list_all (\<lambda>s. logs (execution s) = logs (execution (firstFailsTrace ! 6))
                    \<and> length (liveLogs s) = 4
                    \<and> map stepId (liveLogs s) = [''step-1'', ''step-2'', ''step-3'', ''step-4''])
         firstFailsTrace"
proof -
  have ids: "map step_id (wf_steps notificationDemo) = [''step-1'', ''step-2'', ''step-3'', ''step-4'']"
    using arg_cong [OF notificationDemo_facts, of "map fst"] by (simp add: comp_def)
  have len: "length (wf_steps notificationDemo) = 4"
    using arg_cong [OF notificationDemo_facts, of length] by simp
  from log_shape_invariant [of firstFails True notificationDemo] obtain tr fin where
    t: "executeTrace firstFails True notificationDemo = Inr tr"
    and f: "executeWorkflow firstFails True notificationDemo = Inr fin"
    and lf: "length (liveLogs fin) = length (wf_steps notificationDemo)"
    and idf: "map stepId (liveLogs fin) = map step_id (wf_steps notificationDemo)"
    and every: "\<forall>s\<in>set tr. logs (execution s) = logs (execution fin)
                     \<and> length (liveLogs s) = length (wf_steps notificationDemo)
                     \<and> map stepId (liveLogs s) = map step_id (wf_steps notificationDemo)"
    by blast
  from t have tr: "tr = firstFailsTrace" by (simp add: firstFailsTrace_run)
  from f have fin: "fin = firstFailsTrace ! 6" by (simp add: firstFails_result)
  from every have "list_all (\<lambda>s. logs (execution s) = logs (execution (firstFailsTrace ! 6))
                    \<and> length (liveLogs s) = 4
                    \<and> map stepId (liveLogs s) = [''step-1'', ''step-2'', ''step-3'', ''step-4''])
         firstFailsTrace"
    unfolding tr fin ids len list_all_iff .
  moreover from lf have "length (liveLogs (firstFailsTrace ! 6)) = 4"
    unfolding fin len .
  moreover from idf
  have "map stepId (liveLogs (firstFailsTrace ! 6)) = [''step-1'', ''step-2'', ''step-3'', ''step-4'']"
    unfolding fin ids .
  ultimately show ?thesis
    using firstFailsTrace_run firstFails_result firstFailsTrace_length len
    by (intro conjI)
qed

subsection \<open>The overall status\<close>

text \<open>
  Claim C10. Every run returns a record whose status is \<open>failed\<close> if and only if
  the simulated execution of some step that is not a condition has failed,
  and is \<open>completed\<close> otherwise. Failures of condition steps and failures for
  unmet dependencies leave it \<open>completed\<close>: there is a run that returns
  \<open>completed\<close> with every log \<open>failed\<close>.
\<close>

theorem overall_status_failed_iff_critical_failure:
  "(\<exists>fin. executeWorkflow world cb w = Inr fin
       \<and> (status (execution fin) = ExecFailed \<longleftrightarrow> criticalFailure fin)
       \<and> (\<not> criticalFailure fin \<longrightarrow> status (execution fin) = ExecCompleted))
   \<and> (\<exists>fin'. executeWorkflow firstFails True notificationDemo = Inr fin'
         \<and> status (execution fin') = ExecCompleted
         \<and> map log_status (liveLogs fin') = [Failed, Failed, Failed, Failed]
         \<and> map log_error (liveLogs fin')
              = [Some ''Simulated execution error'', Some ''Dependencies not met'',
                 Some ''Dependencies not met'', Some ''Dependencies not met''])"
proof
  from trace_shape [of world cb w]
  show "\<exists>fin. executeWorkflow world cb w = Inr fin
       \<and> (status (execution fin) = ExecFailed \<longleftrightarrow> criticalFailure fin)
       \<and> (\<not> criticalFailure fin \<longrightarrow> status (execution fin) = ExecCompleted)"
    by blast
next
  from nth_map_eq [OF firstFailsTrace_summary, of 6]
  have "status (execution (firstFailsTrace ! 6)) = ExecCompleted"
    and "map (\<lambda>l. (stepId l, log_status l, log_error l)) (liveLogs (firstFailsTrace ! 6))
         = [(''step-1'', Failed, Some ''Simulated execution error''),
            (''step-2'', Failed, Some ''Dependencies not met''),
            (''step-3'', Failed, Some ''Dependencies not met''),
            (''step-4'', Failed, Some ''Dependencies not met'')]"
    by simp_all
  then have "status (execution (firstFailsTrace ! 6)) = ExecCompleted
     \<and>  map log_status (liveLogs (firstFailsTrace ! 6)) = [Failed, Failed, Failed, Failed]
     \<and> map log_error (liveLogs (firstFailsTrace ! 6))
              = [Some ''Simulated execution error'', Some ''Dependencies not met'',
                 Some ''Dependencies not met'', Some ''Dependencies not met'']"
    by (simp add: summary_projections)
  with firstFails_result
  show "\<exists>fin'. executeWorkflow firstFails True notificationDemo = Inr fin'
         \<and> status (execution fin') = ExecCompleted
         \<and> map log_status (liveLogs fin') = [Failed, Failed, Failed, Failed]
         \<and> map log_error (liveLogs fin')
              = [Some ''Simulated execution error'', Some ''Dependencies not met'',
                 Some ''Dependencies not met'', Some ''Dependencies not met'']"
    by (intro exI [of _ "firstFailsTrace ! 6"]) simp
qed

text \<open>
  Claim C10, at the run whose second simulated step, an action, fails: the
  status returned is \<open>failed\<close>.
\<close>

theorem overall_status_witness:
  "\<exists>fin. executeWorkflow secondFails True notificationDemo = Inr fin
       \<and> criticalFailure fin \<and> status (execution fin) = ExecFailed"
proof -
  from overall_status_failed_iff_critical_failure [of secondFails True notificationDemo]
  obtain fin where f: "executeWorkflow secondFails True notificationDemo = Inr fin"
    and iff: "status (execution fin) = ExecFailed \<longleftrightarrow> criticalFailure fin"
    by blast
  from secondFailsTrace_length have "secondFailsTrace \<noteq> []" by auto
  with secondFailsTrace_length
  have "executeWorkflow secondFails True notificationDemo = Inr (secondFailsTrace ! 6)"
    by (simp add: executeWorkflow_def secondFailsTrace_run last_conv_nth)
  with f have "fin = secondFailsTrace ! 6" by simp
  moreover from nth_map_eq [OF secondFailsTrace_summary, of 6]
  have "criticalFailure (secondFailsTrace ! 6)" by simp
  ultimately show ?thesis using f iff by (intro exI [of _ fin]) simp
qed

subsection \<open>After a critical failure\<close>




subsection \<open>Unmet dependencies\<close>

text \<open>
  Claim C6. Let a step declare dependencies and have a log entry, at index
  \<open>i\<close>. If, in the state in which the loop reaches the step, some declared
  dependency has no log entry with status \<open>completed\<close>, then the pass through
  the loop body only marks the log at \<open>i\<close> as \<open>failed\<close> with the error
  \<open>Dependencies not met\<close>: neither the delay nor \<open>simulateStepExecution\<close> runs
  (no success is drawn, no output, start time or end time is written, no time
  stamp is read, the callback is not called), every other log entry and the
  execution record with its overall status stay as they are, and the loop goes
  on with the next step.
\<close>

theorem unmet_dependencies_fail_the_step:
  assumes "step_dependencies step = Some deps"
    and "d \<in> set deps"
    and "\<forall>l. find (\<lambda>log. stepId log = d) (liveLogs s) = Some l \<longrightarrow> log_status l \<noteq> Completed"
    and "findIndex (\<lambda>log. stepId log = step_id step) (liveLogs s) = Some i"
  shows "runStep world cb step s = Inr (Next, [failDependencies i s])
       \<and> runSteps world cb (step # rest) s =
           (case runSteps world cb rest (failDependencies i s) of
              Inl e \<Rightarrow> Inl e
            | Inr sts \<Rightarrow> Inr (failDependencies i s # sts))
       \<and> liveLogs (failDependencies i s) ! i =
           (liveLogs s ! i)\<lparr> log_status := Failed, log_error := Some ''Dependencies not met'' \<rparr>
       \<and> log_status (liveLogs (failDependencies i s) ! i) = Failed
       \<and> log_error (liveLogs (failDependencies i s) ! i) = Some ''Dependencies not met''
       \<and> log_output (liveLogs (failDependencies i s) ! i) = log_output (liveLogs s ! i)
       \<and> (\<forall>k. k \<noteq> i \<longrightarrow> liveLogs (failDependencies i s) ! k = liveLogs s ! k)
       \<and> simulated (failDependencies i s) = simulated s
       \<and> clockReads (failDependencies i s) = clockReads s
       \<and> emitted (failDependencies i s) = emitted s
       \<and> execution (failDependencies i s) = execution s"
proof -
  from assms(2,3) have "\<not> depsComplete (liveLogs s) deps"
    by (auto simp: depsComplete_iff)
  with assms(1,4) have r: "runStep world cb step s = Inr (Next, [failDependencies i s])"
    by (simp add: runStep_def)
  from assms(4) have i: "i < length (liveLogs s)" by (simp add: findIndex_Some)
  from r i show ?thesis by (simp add: failDependencies_logs split: sum.splits)
qed

text \<open>
  Claim C6, in the run whose first simulated step fails: the loop reaches
  \<open>step-2\<close> in the third state of the run, where the log of its dependency
  \<open>step-1\<close> is \<open>failed\<close>.
\<close>

theorem unmet_dependencies_witness:
  "step_dependencies (wf_steps notificationDemo ! 1) = Some [''step-1'']
   \<and> ''step-1'' \<in> set [''step-1'']
   \<and> map_option log_status
         (find (\<lambda>log. stepId log = ''step-1'') (liveLogs (firstFailsTrace ! 2))) = Some Failed
   \<and> findIndex (\<lambda>log. stepId log = step_id (wf_steps notificationDemo ! 1))
         (liveLogs (firstFailsTrace ! 2)) = Some 1
   \<and> runStep firstFails True (wf_steps notificationDemo ! 1) (firstFailsTrace ! 2)
        = Inr (Next, [failDependencies 1 (firstFailsTrace ! 2)])
   \<and> log_status (liveLogs (failDependencies 1 (firstFailsTrace ! 2)) ! 1) = Failed
   \<and> log_error (liveLogs (failDependencies 1 (firstFailsTrace ! 2)) ! 1)
        = Some ''Dependencies not met''
   \<and> simulated (failDependencies 1 (firstFailsTrace ! 2)) = simulated (firstFailsTrace ! 2)
   \<and> status (execution (failDependencies 1 (firstFailsTrace ! 2))) = ExecRunning"
proof -
  let ?s = "firstFailsTrace ! 2"
  let ?b = "wf_steps notificationDemo ! 1"
  from nth_map_eq [OF notificationDemo_facts, of 1]
  have b: "step_id ?b = ''step-2''" "step_dependencies ?b = Some [''step-1'']"
    by simp_all
  from nth_map_eq [OF firstFailsTrace_summary, of 2]
  have ids: "map stepId (liveLogs ?s) = [''step-1'', ''step-2'', ''step-3'', ''step-4'']"
    and sts: "map log_status (liveLogs ?s) = [Failed, Pending, Pending, Pending]"
    and run: "status (execution ?s) = ExecRunning"
    by (simp_all add: summary_projections)
  from ids sts obtain l1 l2 l3 l4 where ls: "liveLogs ?s = [l1, l2, l3, l4]"
    and l: "stepId l1 = ''step-1''" "stepId l2 = ''step-2''" "log_status l1 = Failed"
    by (auto simp: map_eq_Cons_conv)
  have h3: "\<forall>l. find (\<lambda>log. stepId log = ''step-1'') (liveLogs ?s) = Some l
              \<longrightarrow> log_status l \<noteq> Completed"
    by (simp add: ls l)
  have h4: "findIndex (\<lambda>log. stepId log = step_id ?b) (liveLogs ?s) = Some 1"
    unfolding b by (simp add: ls l)
  have h2: "''step-1'' \<in> set [''step-1'']" by simp
  have h3': "map_option log_status
         (find (\<lambda>log. stepId log = ''step-1'') (liveLogs ?s)) = Some Failed"
    by (simp add: ls l)
  from unmet_dependencies_fail_the_step [OF b(2) h2 h3 h4, of firstFails True "[]"]
  show ?thesis using b h3' h4 run by simp
qed

subsection \<open>What the callback receives\<close>

text \<open>
  The first object handed to the callback is \<open>{ ...execution }\<close>: it holds the
  address of the log array of the run. Through it the caller reads, in every
  state of every run, the logs as they are then.
\<close>

lemma first_snapshot_aliases_the_logs:
  "\<exists>tr. executeTrace world True w = Inr tr
     \<and> emitted (hd tr) = [execution (hd tr)]
     \<and> (\<forall>s\<in>set tr. seenLogs s (hd (emitted (hd tr))) = liveLogs s)"
proof -
  from run_log_shape [of world True w] obtain tr fin where
    tr: "executeTrace world True w = Inr tr" and fin: "fin \<in> set tr"
    and same: "\<forall>s\<in>set tr. logs (execution s) = logs (execution fin)" by blast
  from executeTrace_defined [of world True w] tr
  have hd: "hd tr = notifyShallow True (initState world w)" by auto
  then have e: "emitted (hd tr) = [execution (hd tr)]"
    by (simp add: notifyShallow_def initState_def)
  from hd tr have "hd tr \<in> set tr"
    using executeTrace_defined [of world True w] by auto
  with same have "\<forall>s\<in>set tr. logs (execution s) = logs (execution (hd tr))" by simp
  then have "\<forall>s\<in>set tr. seenLogs s (hd (emitted (hd tr))) = liveLogs s"
    by (simp add: e seenLogs_def liveLogs_def)
  with tr e show ?thesis by (intro exI [of _ tr]) simp
qed

text \<open>
  Claim C4. In the run whose first simulated step fails, the object handed to
  the callback first shows four pending logs when it is handed over, and then
  every change the executor makes to the logs afterwards, up to four failed
  logs at the return. The object handed over second, a deep copy, shows in all
  later states what it showed when it was handed over.
\<close>

theorem first_snapshot_shows_later_mutations:
  "executeTrace firstFails True notificationDemo = Inr firstFailsTrace
   \<and> map (\<lambda>s. map log_status (seenLogs s (hd (emitted (hd firstFailsTrace))))) firstFailsTrace =
       [[Pending, Pending, Pending, Pending],
        [Running, Pending, Pending, Pending],
        [Failed, Pending, Pending, Pending],
        [Failed, Failed, Pending, Pending],
        [Failed, Failed, Failed, Pending],
        [Failed, Failed, Failed, Failed],
        [Failed, Failed, Failed, Failed]]
   \<and> map (\<lambda>s. map log_status (seenLogs s (last (emitted (hd (tl firstFailsTrace))))))
         (tl firstFailsTrace) =
       [[Running, Pending, Pending, Pending],
        [Running, Pending, Pending, Pending],
        [Running, Pending, Pending, Pending],
        [Running, Pending, Pending, Pending],
        [Running, Pending, Pending, Pending],
        [Running, Pending, Pending, Pending]]"
  using firstFailsTrace_run firstFailsTrace_first_snapshot firstFailsTrace_second_snapshot
  by (intro conjI)

end
